theory Spec2Isabelle
  imports Complex_Main "HOL-Library.Word"
begin

unbundle bit_operations_syntax

section \<open>Data model\<close>

text \<open>
  The firmware of \<^verbatim>\<open>main.py\<close> reads DS18X20 one-wire probes and the onboard sensor,
  aggregates the readings of the group "Pond" and broadcasts one JSON array per cycle.

  Temperatures are Python floats; they are modelled as exact reals, so rounding is not
  part of the model. A device address (a \<^verbatim>\<open>bytearray\<close>) is a list of bytes. A telemetry
  record is a Python dict literal, modelled as an association list in the order the
  literal is written, read with \<^const>\<open>map_of\<close> as \<^verbatim>\<open>dict.get\<close> does.
\<close>

type_synonym byte = "8 word"
type_synonym rom = "byte list"

datatype error =
    ConvertError | ReadTempError | ReadScratchError | IndexError | KeyError
  | TypeError | ZeroDivisionError | OnboardError | EncodeError | SendError

datatype jval = JNull | JStr string | JNum real | JInt int | JBool bool

type_synonym jrecord = "(string \<times> jval) list"
type_synonym batch = "jrecord list"

text \<open>Configuration constants of the module.\<close>

definition LOW_ALARM_TEMP :: real where
  "LOW_ALARM_TEMP = 20"

definition HIGH_ALARM_TEMP :: real where
  "HIGH_ALARM_TEMP = 25"

definition LOOP_SLEEP_SECS :: nat where
  "LOOP_SLEEP_SECS = 1"

definition TYPE_HARDWARE :: string where
  "TYPE_HARDWARE = ''Hardware''"

definition SENSOR_PLACEMENTS :: "(string \<times> string) list" where
  "SENSOR_PLACEMENTS =
     [(''28fd93df0d000054'', ''Pump housing''),
      (''2825d05704e13c71'', ''Pond''),
      (''287e9d5704e13ca2'', ''Pond'')]"

text \<open>
  The onboard sensor object comes from the module \<^verbatim>\<open>pico_hardware\<close>; the loop only reads
  its three attributes after \<^verbatim>\<open>get_reading\<close>, so they are inputs of a cycle.
\<close>

record onboard_temp =
  current_temp :: real
  maximum :: real
  minimum :: real

text \<open>
  What the hardware and the libraries answer during one cycle. \<open>convert_temp\<close>,
  \<open>dumps\<close> and \<open>sendto\<close> are \<open>Some e\<close> when the call raises; \<open>clock k\<close> is the value of
  the \<open>k\<close>-th call of \<^verbatim>\<open>get_epoch_time\<close> in the cycle. A device answers every
  \<^verbatim>\<open>read_scratch\<close> of one cycle alike.
\<close>

record cycle_env =
  convert_temp :: "error option"
  read_temp :: "rom \<Rightarrow> error + real"
  read_scratch :: "rom \<Rightarrow> error + byte list"
  get_reading :: "error + onboard_temp"
  clock :: "nat \<Rightarrow> int"
  dumps :: "error option"
  sendto :: "error option"

text \<open>
  The variables of \<^verbatim>\<open>main\<close> that outlive a cycle, and what an observer sees: the LED,
  the summaries printed on the console, the datagrams handed to the socket (each one the
  record list that was encoded), and the seconds slept between cycles.
\<close>

record loop_state =
  c_max :: "real option"
  c_min :: "real option"
  led :: bool
  console :: "jrecord list"
  sent :: "batch list"
  slept :: nat

section \<open>Helpers of the module\<close>

definition get_value_from_dict :: "('k \<times> 'v) list \<Rightarrow> 'k \<Rightarrow> 'v option" where
  "get_value_from_dict dictionary key = map_of dictionary key"

text \<open>\<^verbatim>\<open>str\<close> of a placement lookup: the string itself, or the text "None".\<close>

definition py_str :: "string option \<Rightarrow> string" where
  "py_str v = (case v of None \<Rightarrow> ''None'' | Some s \<Rightarrow> s)"

definition hex_digit :: "nat \<Rightarrow> char" where
  "hex_digit d = ''0123456789abcdef'' ! d"

definition hexlify :: "byte list \<Rightarrow> string" where
  "hexlify bs = concat (map (\<lambda>b. [hex_digit (unat b div 16), hex_digit (unat b mod 16)]) bs)"

definition rom_to_hex :: "rom \<Rightarrow> string" where
  "rom_to_hex rom = hexlify rom"

text \<open>
  \<^verbatim>\<open>sensor.read_scratch(rom)[4] & 0x60 >> 5\<close>: in Python the shift binds tighter than
  the conjunction, so the mask is \<open>0x60 >> 5\<close>.
\<close>

definition get_resolution :: "cycle_env \<Rightarrow> rom \<Rightarrow> error + int" where
  "get_resolution sensor rom =
     (case read_scratch sensor rom of
        Inl e \<Rightarrow> Inl e
      | Inr buf \<Rightarrow>
          if 4 < length buf then Inr (uint (buf ! 4) AND drop_bit 5 (0x60 :: int))
          else Inl IndexError)"

text \<open>The body of the loop of \<^verbatim>\<open>external_sensors\<close> for the \<open>k\<close>-th device.\<close>

definition external_sensors_body :: "cycle_env \<Rightarrow> nat \<Rightarrow> rom \<Rightarrow> error + jrecord" where
  "external_sensors_body ds_sensor k rom =
     (case read_temp ds_sensor rom of
        Inl e \<Rightarrow> Inl e
      | Inr tempC \<Rightarrow>
          let alarm = (if tempC < LOW_ALARM_TEMP \<or> tempC > HIGH_ALARM_TEMP then True else False)
          in (case get_resolution ds_sensor rom of
                Inl e \<Rightarrow> Inl e
              | Inr resolution_raw \<Rightarrow>
                  (case get_resolution ds_sensor rom of
                     Inl e \<Rightarrow> Inl e
                   | Inr resolution \<Rightarrow>
                       Inr [(''type'', JStr TYPE_HARDWARE),
                            (''value'', JNum tempC),
                            (''sensor'', JStr (rom_to_hex rom)),
                            (''location'',
                               JStr (py_str (get_value_from_dict SENSOR_PLACEMENTS (rom_to_hex rom)))),
                            (''time'', JInt (clock ds_sensor k)),
                            (''resolution_raw'', JInt resolution_raw),
                            (''resolution_bits'', JInt (resolution * 9 + 9)),
                            (''alarm'', JBool alarm)])))"

fun external_sensors_loop ::
  "cycle_env \<Rightarrow> nat \<Rightarrow> rom list \<Rightarrow> jrecord list \<Rightarrow> error + jrecord list" where
  "external_sensors_loop ds_sensor k [] measures0 = Inr measures0"
| "external_sensors_loop ds_sensor k (rom # roms) measures0 =
     (case external_sensors_body ds_sensor k rom of
        Inl e \<Rightarrow> Inl e
      | Inr measurement \<Rightarrow>
          external_sensors_loop ds_sensor (Suc k) roms (measures0 @ [measurement]))"

definition external_sensors :: "rom list \<Rightarrow> cycle_env \<Rightarrow> error + jrecord list" where
  "external_sensors roms ds_sensor = external_sensors_loop ds_sensor 0 roms []"

text \<open>
  \<^verbatim>\<open>[entry[key] for entry in json_array if entry.get(condition_key) == condition_val]\<close>:
  a matching entry without the key raises.
\<close>

fun matching_values :: "jrecord list \<Rightarrow> string \<Rightarrow> string \<Rightarrow> jval \<Rightarrow> error + jval list" where
  "matching_values [] key condition_key condition_val = Inr []"
| "matching_values (entry # json_array) key condition_key condition_val =
     (if map_of entry condition_key = Some condition_val then
        (case map_of entry key of
           None \<Rightarrow> Inl KeyError
         | Some v \<Rightarrow>
             (case matching_values json_array key condition_key condition_val of
                Inl e \<Rightarrow> Inl e
              | Inr vs \<Rightarrow> Inr (v # vs)))
      else matching_values json_array key condition_key condition_val)"

text \<open>\<^verbatim>\<open>sum\<close>: numbers add up (a bool counts as 0 or 1), anything else raises.\<close>

fun py_sum :: "jval list \<Rightarrow> real \<Rightarrow> error + real" where
  "py_sum [] acc = Inr acc"
| "py_sum (JNum r # vs) acc = py_sum vs (acc + r)"
| "py_sum (JInt i # vs) acc = py_sum vs (acc + of_int i)"
| "py_sum (JBool b # vs) acc = py_sum vs (acc + (if b then 1 else 0))"
| "py_sum (v # vs) acc = Inl TypeError"

text \<open>Division of numbers: a zero divisor raises.\<close>

definition py_div :: "real \<Rightarrow> real \<Rightarrow> error + real" where
  "py_div a b = (if b = 0 then Inl ZeroDivisionError else Inr (a / b))"

definition avg_from_json :: "jrecord list \<Rightarrow> string \<Rightarrow> string \<Rightarrow> jval \<Rightarrow> error + real" where
  "avg_from_json json_array key condition_key condition_val =
     (case matching_values json_array key condition_key condition_val of
        Inl e \<Rightarrow> Inl e
      | Inr values \<Rightarrow>
          if values \<noteq> [] then
            (case py_sum values 0 of
               Inl e \<Rightarrow> Inl e
             | Inr s \<Rightarrow> py_div s (real (length values)))
          else Inr 0)"

section \<open>The cycle\<close>

definition py_num :: "real option \<Rightarrow> jval" where
  "py_num v = (case v of None \<Rightarrow> JNull | Some r \<Rightarrow> JNum r)"

text \<open>
  Lines 192 to 199: seed or widen the lifetime extrema. Comparing \<^verbatim>\<open>None\<close> with a
  number raises, after \<open>c_max\<close> may already have been assigned.
\<close>

definition max_min_step :: "real \<Rightarrow> loop_state \<Rightarrow> error option \<times> loop_state" where
  "max_min_step average_pond_temp st =
     (case c_max st of
        None \<Rightarrow> (None, st\<lparr>c_max := Some average_pond_temp, c_min := Some average_pond_temp\<rparr>)
      | Some mx \<Rightarrow>
          let st' = (if mx < average_pond_temp then st\<lparr>c_max := Some average_pond_temp\<rparr> else st)
          in (case c_min st' of
                None \<Rightarrow> (Some TypeError, st')
              | Some mn \<Rightarrow>
                  (None, if mn > average_pond_temp then st'\<lparr>c_min := Some average_pond_temp\<rparr>
                         else st')))"

definition onboard_record :: "onboard_temp \<Rightarrow> int \<Rightarrow> jrecord" where
  "onboard_record ob t =
     [(''location'', JStr ''onboard''), (''type'', JStr TYPE_HARDWARE),
      (''sensor'', JStr ''default''), (''value'', JNum (current_temp ob)),
      (''max_c'', JNum (maximum ob)), (''min_C'', JNum (minimum ob)), (''time'', JInt t)]"

definition group_record :: "string \<Rightarrow> jval \<Rightarrow> int \<Rightarrow> jrecord" where
  "group_record ty v t =
     [(''location'', JStr ''Pond''), (''value'', v), (''type'', JStr ty), (''time'', JInt t)]"

definition summary_record :: "real \<Rightarrow> real option \<Rightarrow> real option \<Rightarrow> jrecord" where
  "summary_record average_pond_temp mn mx =
     [(''type'', JStr ''summary''), (''location'', JStr ''Pond''),
      (''avg'', JNum average_pond_temp), (''min'', py_num mn), (''max'', py_num mx)]"

text \<open>
  The body of the \<^verbatim>\<open>try\<close> of the main loop, lines 177 to 215. The first component is
  the exception that left it, if any; the state is returned as the statements that ran
  left it. A \<^verbatim>\<open>sendto\<close> that raises has handed no datagram to the network.
\<close>

definition cycle_body :: "rom list \<Rightarrow> cycle_env \<Rightarrow> loop_state \<Rightarrow> error option \<times> loop_state" where
  "cycle_body roms env st0 =
     (let st1 = st0\<lparr>led := False\<rparr> in
      case convert_temp env of
        Some e \<Rightarrow> (Some e, st1)
      | None \<Rightarrow>
      (case external_sensors roms env of
        Inl e \<Rightarrow> (Some e, st1)
      | Inr measures0 \<Rightarrow>
      (case get_reading env of
        Inl e \<Rightarrow> (Some e, st1)
      | Inr ob \<Rightarrow>
      let n = length roms;
          measures1 = measures0 @ [onboard_record ob (clock env n)] in
      (case avg_from_json measures1 ''value'' ''location'' (JStr ''Pond'') of
        Inl e \<Rightarrow> (Some e, st1)
      | Inr average_pond_temp \<Rightarrow>
      let measures2 =
            measures1 @ [group_record ''avg_temp'' (JNum average_pond_temp) (clock env (n + 1))] in
      (case max_min_step average_pond_temp st1 of
        (Some e, st2) \<Rightarrow> (Some e, st2)
      | (None, st2) \<Rightarrow>
      let measures3 =
            measures2 @ [group_record ''max'' (py_num (c_max st2)) (clock env (n + 2))];
          measures4 =
            measures3 @ [group_record ''min'' (py_num (c_min st2)) (clock env (n + 3))];
          summary = summary_record average_pond_temp (c_min st2) (c_max st2);
          measures5 = measures4 @ [summary];
          st3 = st2\<lparr>console := console st2 @ [summary]\<rparr> in
      (case dumps env of
        Some e \<Rightarrow> (Some e, st3)
      | None \<Rightarrow>
      let st4 = st3\<lparr>led := True\<rparr> in
      (case sendto env of
        Some e \<Rightarrow> (Some e, st4)
      | None \<Rightarrow> (None, st4\<lparr>sent := sent st4 @ [measures5]\<rparr>))))))))"

text \<open>
  One iteration of \<^verbatim>\<open>while wlan and socket and roms\<close>: the \<^verbatim>\<open>try\<close> with its bare
  \<^verbatim>\<open>except: pass\<close>, then the sleep.
\<close>

definition cycle :: "rom list \<Rightarrow> cycle_env \<Rightarrow> loop_state \<Rightarrow> loop_state" where
  "cycle roms env st =
     (let st' = snd (cycle_body roms env st) in st'\<lparr>slept := slept st' + LOOP_SLEEP_SECS\<rparr>)"

text \<open>
  The loop never ends by itself; it is run here over the environments of its first
  iterations. The handle and the module in its condition are always true, the list of
  devices is true when it is not empty.
\<close>

fun main_loop :: "rom list \<Rightarrow> cycle_env list \<Rightarrow> loop_state \<Rightarrow> loop_state" where
  "main_loop roms [] st = st"
| "main_loop roms (env # envs) st =
     (if roms \<noteq> [] then main_loop roms envs (cycle roms env st) else st)"

text \<open>The variables as \<^verbatim>\<open>main\<close> sets them before the loop.\<close>

definition init_state :: loop_state where
  "init_state = \<lparr>c_max = None, c_min = None, led = True, console = [], sent = [], slept = 0\<rparr>"

section \<open>Connecting to the WLAN\<close>

text \<open>
  What \<^verbatim>\<open>connect_to_wlan\<close> does to the LED, the timer and the interface, in order.
  \<open>IsConnected b\<close> is one evaluation of \<^verbatim>\<open>wlan.isconnected()\<close> with its answer.
\<close>

datatype event =
    LedOff | LedOn | SleepMs int | Sleep int | WlanActive bool
  | WlanConnect string string | IsConnected bool

function flasher :: "int \<Rightarrow> int \<Rightarrow> event list" where
  "flasher delay_ms n_times =
     (if n_times > 0 then [LedOff, SleepMs delay_ms, LedOn] @ flasher delay_ms (n_times - 1)
      else [])"
  by pat_completeness auto
termination
  by (relation "measure (\<lambda>(d, t). nat t)") auto

declare flasher.simps [simp del]

text \<open>
  The loop \<^verbatim>\<open>while not wlan.isconnected()\<close>, lines 70 to 74. The interface answers the
  \<open>k\<close>-th poll with \<open>isconnected k\<close>; the loop may poll forever, and then the function
  has no result. When it ends, the result is what was done, in order, together with the
  value the local variable \<^verbatim>\<open>retry_count\<close> has reached.
\<close>

partial_function (option) wait_connected ::
  "(nat \<Rightarrow> bool) \<Rightarrow> nat \<Rightarrow> int \<Rightarrow> event list \<Rightarrow> (event list \<times> int) option" where
  "wait_connected isconnected k retry_count tr =
     (if \<not> isconnected k then
        wait_connected isconnected (Suc k) (retry_count + 1)
          (tr @ [IsConnected False] @ flasher 20 20 @ [Sleep 5])
      else Some (tr @ [IsConnected True], retry_count))"

definition connect_to_wlan ::
  "string \<Rightarrow> string \<Rightarrow> (nat \<Rightarrow> bool) \<Rightarrow> (event list \<times> int) option" where
  "connect_to_wlan ssid password isconnected =
     wait_connected isconnected 0 1
       (flasher 5 10 @ [Sleep 3, WlanActive True, Sleep 2, WlanConnect ssid password])"

section \<open>Notions used to state the properties\<close>

text \<open>The first record of a batch with a given \<open>type\<close>, and a number read from it.\<close>

definition record_of :: "string \<Rightarrow> batch \<Rightarrow> jrecord option" where
  "record_of ty b = find (\<lambda>r. map_of r ''type'' = Some (JStr ty)) b"

definition reported :: "string \<Rightarrow> string \<Rightarrow> batch \<Rightarrow> real option" where
  "reported ty key b =
     (case record_of ty b of
        None \<Rightarrow> None
      | Some r \<Rightarrow> (case map_of r key of Some (JNum v) \<Rightarrow> Some v | _ \<Rightarrow> None))"

text \<open>The values of the measurements of a group, in order.\<close>

fun group_values :: "string \<Rightarrow> jrecord list \<Rightarrow> real list" where
  "group_values g [] = []"
| "group_values g (m # ms) =
     (if map_of m ''location'' = Some (JStr g) then
        (case map_of m ''value'' of
           Some (JNum v) \<Rightarrow> v # group_values g ms
         | _ \<Rightarrow> group_values g ms)
      else group_values g ms)"

text \<open>
  The group average a cycle computes on line 188, when the statements before it do not
  raise: the value the extrema are then updated with.
\<close>

definition cycle_average :: "rom list \<Rightarrow> cycle_env \<Rightarrow> real option" where
  "cycle_average roms env =
     (case convert_temp env of
        Some e \<Rightarrow> None
      | None \<Rightarrow>
      (case external_sensors roms env of
        Inl e \<Rightarrow> None
      | Inr ms \<Rightarrow>
      (case get_reading env of
        Inl e \<Rightarrow> None
      | Inr ob \<Rightarrow>
      (case avg_from_json (ms @ [onboard_record ob (clock env (length roms))])
              ''value'' ''location'' (JStr ''Pond'') of
        Inl e \<Rightarrow> None
      | Inr a \<Rightarrow> Some a))))"

text \<open>
  The property "after each failed poll the connect request is issued again before the
  next poll", on a trace.
\<close>

fun connect_before_next_poll :: "event list \<Rightarrow> bool" where
  "connect_before_next_poll [] = False"
| "connect_before_next_poll (WlanConnect s p # es) = True"
| "connect_before_next_poll (IsConnected b # es) = False"
| "connect_before_next_poll (e # es) = connect_before_next_poll es"

fun reissues_on_timeout :: "event list \<Rightarrow> bool" where
  "reissues_on_timeout [] = True"
| "reissues_on_timeout (IsConnected False # es) =
     (connect_before_next_poll es \<and> reissues_on_timeout es)"
| "reissues_on_timeout (e # es) = reissues_on_timeout es"

definition connect_requests :: "event list \<Rightarrow> nat" where
  "connect_requests tr = length (filter (\<lambda>e. case e of WlanConnect s p \<Rightarrow> True | _ \<Rightarrow> False) tr)"

text \<open>
  The 2-bit resolution code of a DS18X20 configuration byte as the mask and the shift of
  \<^verbatim>\<open>get_resolution\<close> name it: bits 5 and 6.
\<close>

definition resolution_code :: "byte \<Rightarrow> int" where
  "resolution_code config = drop_bit 5 (uint config AND 0x60)"

text \<open>A record built by \<^verbatim>\<open>external_sensors\<close>: typed as hardware, with a value and a location.\<close>

definition is_measurement :: "jrecord \<Rightarrow> bool" where
  "is_measurement m \<longleftrightarrow>
     map_of m ''type'' = Some (JStr TYPE_HARDWARE) \<and>
     (\<exists>v. map_of m ''value'' = Some (JNum v)) \<and>
     (\<exists>l. map_of m ''location'' = Some (JStr l))"

text \<open>\<open>c_max\<close> and \<open>c_min\<close> are set together.\<close>

definition balanced :: "loop_state \<Rightarrow> bool" where
  "balanced st \<longleftrightarrow> (c_max st = None \<longleftrightarrow> c_min st = None)"

definition new_max :: "real option \<Rightarrow> real \<Rightarrow> real" where
  "new_max m a = (case m of None \<Rightarrow> a | Some x \<Rightarrow> max x a)"

definition new_min :: "real option \<Rightarrow> real \<Rightarrow> real" where
  "new_min m a = (case m of None \<Rightarrow> a | Some x \<Rightarrow> min x a)"

text \<open>The record list of a cycle, given its measurements and its three aggregates.\<close>

definition batch_layout ::
  "jrecord list \<Rightarrow> onboard_temp \<Rightarrow> (nat \<Rightarrow> int) \<Rightarrow> real \<Rightarrow> real \<Rightarrow> real \<Rightarrow> batch" where
  "batch_layout ms ob clk a mn mx =
     ms @ [onboard_record ob (clk (length ms)),
           group_record ''avg_temp'' (JNum a) (clk (length ms + 1)),
           group_record ''max'' (JNum mx) (clk (length ms + 2)),
           group_record ''min'' (JNum mn) (clk (length ms + 3)),
           summary_record a (Some mn) (Some mx)]"

section \<open>Example inputs\<close>

text \<open>
  The two probes placed in the pond and the one at the pump housing, a scratchpad with a
  given configuration byte, and a cycle in which nothing raises and the pond probes read
  \<open>t1\<close> and \<open>t2\<close>.
\<close>

definition pond_rom_a :: rom where
  "pond_rom_a = [0x28, 0x25, 0xd0, 0x57, 0x04, 0xe1, 0x3c, 0x71]"

definition pond_rom_b :: rom where
  "pond_rom_b = [0x28, 0x7e, 0x9d, 0x57, 0x04, 0xe1, 0x3c, 0xa2]"

definition pump_rom :: rom where
  "pump_rom = [0x28, 0xfd, 0x93, 0xdf, 0x0d, 0x00, 0x00, 0x54]"

definition scratchpad :: "byte \<Rightarrow> byte list" where
  "scratchpad config = [0x30, 0x01, 0x4b, 0x46, config, 0xff, 0x0c, 0x10, 0x00]"

definition readings :: "real \<Rightarrow> real \<Rightarrow> cycle_env" where
  "readings t1 t2 =
     \<lparr>convert_temp = None,
      read_temp = (\<lambda>rom. if rom = pond_rom_a then Inr t1
                         else if rom = pond_rom_b then Inr t2 else Inr 21),
      read_scratch = (\<lambda>rom. Inr (scratchpad 0x7f)),
      get_reading = Inr \<lparr>current_temp = 24, maximum = 24, minimum = 24\<rparr>,
      clock = (\<lambda>k. 0),
      dumps = None,
      sendto = None\<rparr>"

definition boundary_measurements :: "jrecord list" where
  "boundary_measurements =
     [[(''type'', JStr ''Hardware''), (''value'', JNum 20),
       (''sensor'', JStr ''2825d05704e13c71''), (''location'', JStr ''Pond''),
       (''time'', JInt 0), (''resolution_raw'', JInt 3), (''resolution_bits'', JInt 36),
       (''alarm'', JBool False)],
      [(''type'', JStr ''Hardware''), (''value'', JNum 25),
       (''sensor'', JStr ''287e9d5704e13ca2''), (''location'', JStr ''Pond''),
       (''time'', JInt 0), (''resolution_raw'', JInt 3), (''resolution_bits'', JInt 36),
       (''alarm'', JBool False)]]"

definition scenario1_measurements :: "jrecord list" where
  "scenario1_measurements =
     [[(''type'', JStr ''Hardware''), (''value'', JNum 19),
       (''sensor'', JStr ''2825d05704e13c71''), (''location'', JStr ''Pond''),
       (''time'', JInt 0), (''resolution_raw'', JInt 3), (''resolution_bits'', JInt 36),
       (''alarm'', JBool True)],
      [(''type'', JStr ''Hardware''), (''value'', JNum 26),
       (''sensor'', JStr ''287e9d5704e13ca2''), (''location'', JStr ''Pond''),
       (''time'', JInt 0), (''resolution_raw'', JInt 3), (''resolution_bits'', JInt 36),
       (''alarm'', JBool True)]]"

definition pump_measurements :: "jrecord list" where
  "pump_measurements =
     [[(''type'', JStr ''Hardware''), (''value'', JNum 21),
       (''sensor'', JStr ''28fd93df0d000054''), (''location'', JStr ''Pump housing''),
       (''time'', JInt 0), (''resolution_raw'', JInt 3), (''resolution_bits'', JInt 36),
       (''alarm'', JBool False)]]"

section \<open>Notions about whole runs\<close>

text \<open>What a batch reports as group average, lifetime minimum and lifetime maximum.\<close>

definition reports :: "batch \<Rightarrow> real \<Rightarrow> real \<Rightarrow> real \<Rightarrow> bool" where
  "reports b a mn mx \<longleftrightarrow>
     reported ''avg_temp'' ''value'' b = Some a \<and> reported ''summary'' ''avg'' b = Some a \<and>
     reported ''min'' ''value'' b = Some mn \<and> reported ''summary'' ''min'' b = Some mn \<and>
     reported ''max'' ''value'' b = Some mx \<and> reported ''summary'' ''max'' b = Some mx"

text \<open>The group averages of the cycles of a run that got as far as line 188, in order.\<close>

fun averages :: "rom list \<Rightarrow> cycle_env list \<Rightarrow> real list" where
  "averages roms [] = []"
| "averages roms (env # envs) =
     (case cycle_average roms env of
        None \<Rightarrow> averages roms envs
      | Some a \<Rightarrow> a # averages roms envs)"

text \<open>A later batch reports a minimum no higher and a maximum no lower.\<close>

definition widens :: "batch \<Rightarrow> batch \<Rightarrow> bool" where
  "widens b1 b2 \<longleftrightarrow>
     (\<exists>a1 mn1 mx1 a2 mn2 mx2.
        reports b1 a1 mn1 mx1 \<and> reports b2 a2 mn2 mx2 \<and> mn2 \<le> mn1 \<and> mx1 \<le> mx2)"

text \<open>
  What holds of the state between cycles: the extrema are set together, every batch
  sent so far reports values that enclose its average and lie within the current
  extrema, and the batches widen in the order they were sent.
\<close>

definition run_inv :: "loop_state \<Rightarrow> bool" where
  "run_inv st \<longleftrightarrow>
     balanced st \<and> sorted_wrt widens (sent st) \<and>
     (\<forall>b\<in>set (sent st). \<exists>a mn mx cn cm.
        reports b a mn mx \<and> mn \<le> a \<and> a \<le> mx \<and>
        c_min st = Some cn \<and> c_max st = Some cm \<and> cn \<le> mn \<and> mx \<le> cm)"

text \<open>
  Three cycles without a fault; a cycle whose \<^verbatim>\<open>sendto\<close> raises after the probes read
  30.0; and a cycle in which the second probe cannot be read.
\<close>

definition three_cycles :: "cycle_env list" where
  "three_cycles = [readings 21 23, readings 19 26, readings 20 20]"

definition send_fails :: cycle_env where
  "send_fails = (readings 30 30)\<lparr>sendto := Some SendError\<rparr>"

definition bus_fails :: cycle_env where
  "bus_fails =
     (readings 30 30)\<lparr>read_temp :=
        (\<lambda>rom. if rom = pond_rom_a then Inr 30 else Inl ReadTempError)\<rparr>"

text \<open>
  A probe configured for 9-bit resolution (configuration byte \<open>0x1f\<close>, resolution code 0)
  and the measurement the loop builds from it.
\<close>

definition nine_bit_probe :: cycle_env where
  "nine_bit_probe = (readings 21 23)\<lparr>read_scratch := (\<lambda>rom. Inr (scratchpad 0x1f))\<rparr>"

definition nine_bit_measurement :: jrecord where
  "nine_bit_measurement =
     [(''type'', JStr ''Hardware''), (''value'', JNum 21),
      (''sensor'', JStr ''2825d05704e13c71''), (''location'', JStr ''Pond''),
      (''time'', JInt 0), (''resolution_raw'', JInt 3), (''resolution_bits'', JInt 36),
      (''alarm'', JBool False)]"

text \<open>An interface that is not connected at the first poll and is at every later one.\<close>

definition link_up_on_second_poll :: "nat \<Rightarrow> bool" where
  "link_up_on_second_poll k \<longleftrightarrow> 1 \<le> k"

text \<open>What the loop of \<^verbatim>\<open>connect_to_wlan\<close> does after a poll that found no connection.\<close>

definition retry_events :: "event list" where
  "retry_events = [IsConnected False] @ flasher 20 20 @ [Sleep 5]"

section \<open>The sensor loop and the average\<close>

lemma external_sensors_body_Inr:
  assumes "external_sensors_body env k rom = Inr m"
  shows "\<exists>tempC res. read_temp env rom = Inr tempC \<and> get_resolution env rom = Inr res \<and>
     m = [(''type'', JStr TYPE_HARDWARE), (''value'', JNum tempC),
          (''sensor'', JStr (rom_to_hex rom)),
          (''location'', JStr (py_str (get_value_from_dict SENSOR_PLACEMENTS (rom_to_hex rom)))),
          (''time'', JInt (clock env k)), (''resolution_raw'', JInt res),
          (''resolution_bits'', JInt (res * 9 + 9)),
          (''alarm'', JBool (tempC < LOW_ALARM_TEMP \<or> tempC > HIGH_ALARM_TEMP))]"
  using assms
  by (auto simp: external_sensors_body_def Let_def split: sum.splits if_splits)

lemma external_sensors_loop_Inr:
  "external_sensors_loop env k roms acc = Inr ms \<Longrightarrow>
     \<exists>ms'. ms = acc @ ms' \<and> length ms' = length roms \<and>
       (\<forall>i<length roms. external_sensors_body env (k + i) (roms ! i) = Inr (ms' ! i))"
proof (induction roms arbitrary: k acc ms)
  case Nil
  then show ?case by simp
next
  case (Cons rom roms)
  from Cons.prems obtain m where
    m: "external_sensors_body env k rom = Inr m" and
    rest: "external_sensors_loop env (Suc k) roms (acc @ [m]) = Inr ms"
    by (auto split: sum.splits)
  from Cons.IH [OF rest] obtain ms' where
    ms': "ms = (acc @ [m]) @ ms'" "length ms' = length roms"
      "\<forall>i<length roms. external_sensors_body env (Suc k + i) (roms ! i) = Inr (ms' ! i)"
    by blast
  have "\<forall>i<length (rom # roms). external_sensors_body env (k + i) ((rom # roms) ! i) = Inr ((m # ms') ! i)"
  proof (intro allI impI)
    fix i assume "i < length (rom # roms)"
    then show "external_sensors_body env (k + i) ((rom # roms) ! i) = Inr ((m # ms') ! i)"
      using m ms'(3) by (cases i) auto
  qed
  with ms' show ?case by (intro exI [of _ "m # ms'"]) simp
qed

lemma external_sensors_Inr:
  "external_sensors roms env = Inr ms \<Longrightarrow>
     length ms = length roms \<and>
     (\<forall>i<length roms. external_sensors_body env i (roms ! i) = Inr (ms ! i))"
  unfolding external_sensors_def
  by (drule external_sensors_loop_Inr) auto

lemma external_sensors_body_is_measurement:
  "external_sensors_body env k rom = Inr m \<Longrightarrow> is_measurement m"
  by (drule external_sensors_body_Inr) (auto simp: is_measurement_def)

lemma external_sensors_is_measurement:
  assumes "external_sensors roms env = Inr ms"
  shows "\<forall>m\<in>set ms. is_measurement m"
proof
  fix m assume "m \<in> set ms"
  then obtain i where i: "i < length ms" "ms ! i = m"
    by (auto simp: in_set_conv_nth)
  with external_sensors_Inr [OF assms] have "external_sensors_body env i (roms ! i) = Inr m"
    by auto
  then show "is_measurement m" by (rule external_sensors_body_is_measurement)
qed

lemma matching_values_measurements:
  assumes "\<forall>m\<in>set ms. is_measurement m"
    and "matching_values rest ''value'' ''location'' (JStr g) = Inr vs"
  shows "matching_values (ms @ rest) ''value'' ''location'' (JStr g) =
           Inr (map JNum (group_values g ms) @ vs)"
  using assms(1)
proof (induction ms)
  case Nil
  then show ?case using assms(2) by simp
next
  case (Cons m ms)
  then show ?case by (auto simp: is_measurement_def)
qed

lemma py_sum_JNum: "py_sum (map JNum vs) acc = Inr (acc + sum_list vs)"
  by (induction vs arbitrary: acc) (simp_all add: add.assoc)

lemma avg_from_json_measurements:
  assumes "\<forall>m\<in>set ms. is_measurement m"
  shows "avg_from_json (ms @ [onboard_record ob t]) ''value'' ''location'' (JStr ''Pond'') =
           Inr (if group_values ''Pond'' ms = [] then 0
                else sum_list (group_values ''Pond'' ms) / real (length (group_values ''Pond'' ms)))"
proof -
  have "matching_values [onboard_record ob t] ''value'' ''location'' (JStr ''Pond'') = Inr []"
    by (simp add: onboard_record_def)
  from matching_values_measurements [OF assms this]
  show ?thesis
    by (simp add: avg_from_json_def py_sum_JNum py_div_def)
qed

lemma matching_values_error:
  "matching_values json_array key condition_key condition_val = Inl e \<Longrightarrow> e = KeyError"
  by (induction json_array arbitrary: e) (auto split: if_splits option.splits sum.splits)

lemma py_sum_error: "py_sum vs acc = Inl e \<Longrightarrow> e = TypeError"
  by (induction vs acc rule: py_sum.induct) auto

lemma avg_from_json_no_zero_division:
  "avg_from_json json_array key condition_key condition_val \<noteq> Inl ZeroDivisionError"
proof
  assume z: "avg_from_json json_array key condition_key condition_val = Inl ZeroDivisionError"
  show False
  proof (cases "matching_values json_array key condition_key condition_val")
    case (Inl e)
    with z matching_values_error [OF Inl] show False
      by (simp add: avg_from_json_def)
  next
    case (Inr vs)
    show False
    proof (cases "py_sum vs 0")
      case (Inl e)
      with z Inr py_sum_error [OF Inl] show False
        by (simp add: avg_from_json_def split: if_splits)
    next
      case (Inr s)
      with z \<open>matching_values json_array key condition_key condition_val = Inr vs\<close>
      show False
        by (simp add: avg_from_json_def py_div_def split: if_splits)
    qed
  qed
qed

lemma get_resolution_Inr:
  assumes "get_resolution env rom = Inr r"
  shows "\<exists>buf. read_scratch env rom = Inr buf \<and> 4 < length buf \<and>
           r = uint (buf ! 4) AND 3 \<and> 0 \<le> r \<and> r \<le> 3"
proof -
  have m: "drop_bit 5 (0x60 :: int) = 3" by simp
  from assms obtain buf where
    buf: "read_scratch env rom = Inr buf" "4 < length buf" "r = uint (buf ! 4) AND 3"
    by (auto simp: get_resolution_def m split: sum.splits if_splits)
  have "0 \<le> r" using buf(3) by simp
  moreover have "r \<le> 3" using buf(3) by (simp add: AND_upper2')
  ultimately show ?thesis using buf by blast
qed

section \<open>One cycle\<close>

lemma max_min_step_balanced:
  assumes "balanced st"
  shows "max_min_step a st =
    (None, st\<lparr>c_max := Some (new_max (c_max st) a), c_min := Some (new_min (c_min st) a)\<rparr>)"
  using assms
  by (cases "c_max st"; cases "c_min st")
     (auto simp: max_min_step_def balanced_def new_max_def new_min_def Let_def max_def min_def)

lemma max_min_step_None:
  assumes "max_min_step a st = (None, st2)"
  shows "\<exists>mx mn. st2 = st\<lparr>c_max := Some mx, c_min := Some mn\<rparr> \<and> mn \<le> a \<and> a \<le> mx"
proof -
  have "st2 = st\<lparr>c_max := c_max st2, c_min := c_min st2\<rparr> \<and>
        (\<exists>mx mn. c_max st2 = Some mx \<and> c_min st2 = Some mn \<and> mn \<le> a \<and> a \<le> mx)"
    using assms
    by (cases "c_max st"; cases "c_min st")
       (auto simp: max_min_step_def Let_def split: if_splits)
  then show ?thesis by metis
qed

lemma max_min_step_Some:
  assumes "max_min_step a st = (Some e, st2)"
  shows "led st2 = led st \<and> console st2 = console st \<and> sent st2 = sent st \<and> slept st2 = slept st"
  using assms
  by (cases "c_max st"; cases "c_min st")
     (auto simp: max_min_step_def Let_def split: if_splits)

lemma cycle_body_no_average:
  assumes "cycle_average roms env = None"
  shows "\<exists>e. cycle_body roms env st = (Some e, st\<lparr>led := False\<rparr>)"
  using assms
  by (auto simp: cycle_average_def cycle_body_def Let_def split: option.splits sum.splits)

lemma cycle_average_Some:
  assumes "cycle_average roms env = Some a"
  shows "\<exists>ms ob. convert_temp env = None \<and> external_sensors roms env = Inr ms \<and>
           get_reading env = Inr ob \<and>
           avg_from_json (ms @ [onboard_record ob (clock env (length roms))])
              ''value'' ''location'' (JStr ''Pond'') = Inr a"
  using assms
  by (auto simp: cycle_average_def split: option.splits sum.splits)

lemma cycle_body_average:
  assumes "cycle_average roms env = Some a" and "balanced st"
    and "external_sensors roms env = Inr ms" and "get_reading env = Inr ob"
  shows "cycle_body roms env st =
    (let mx = new_max (c_max st) a; mn = new_min (c_min st) a;
         st3 = st\<lparr>c_max := Some mx, c_min := Some mn, led := False,
                 console := console st @ [summary_record a (Some mn) (Some mx)]\<rparr>
     in case dumps env of
          Some e \<Rightarrow> (Some e, st3)
        | None \<Rightarrow>
            (case sendto env of
               Some e \<Rightarrow> (Some e, st3\<lparr>led := True\<rparr>)
             | None \<Rightarrow>
                 (None, st3\<lparr>led := True,
                            sent := sent st @ [batch_layout ms ob (clock env) a mn mx]\<rparr>)))"
proof -
  from cycle_average_Some [OF assms(1)] assms(3,4)
  have c: "convert_temp env = None"
    and a: "avg_from_json (ms @ [onboard_record ob (clock env (length roms))])
              ''value'' ''location'' (JStr ''Pond'') = Inr a"
    by auto
  have len: "length ms = length roms"
    using external_sensors_Inr [OF assms(3)] by simp
  have b: "balanced (st\<lparr>led := False\<rparr>)"
    using assms(2) by (simp add: balanced_def)
  show ?thesis
    unfolding cycle_body_def Let_def
    by (simp add: c assms(3,4) a max_min_step_balanced [OF b] batch_layout_def len py_num_def
          split: option.splits)
qed

lemma cycle_body_success:
  assumes "fst (cycle_body roms env st) = None"
  shows "\<exists>ms ob a mn mx.
     external_sensors roms env = Inr ms \<and> get_reading env = Inr ob \<and>
     cycle_average roms env = Some a \<and> mn \<le> a \<and> a \<le> mx \<and>
     dumps env = None \<and> sendto env = None \<and>
     snd (cycle_body roms env st) =
       st\<lparr>c_max := Some mx, c_min := Some mn, led := True,
          console := console st @ [summary_record a (Some mn) (Some mx)],
          sent := sent st @ [batch_layout ms ob (clock env) a mn mx]\<rparr>"
proof -
  from assms obtain ms ob a st2 where
    c: "convert_temp env = None" and ms: "external_sensors roms env = Inr ms"
    and ob: "get_reading env = Inr ob"
    and a: "avg_from_json (ms @ [onboard_record ob (clock env (length roms))])
              ''value'' ''location'' (JStr ''Pond'') = Inr a"
    and st2: "max_min_step a (st\<lparr>led := False\<rparr>) = (None, st2)"
    and d: "dumps env = None" and s: "sendto env = None"
    unfolding cycle_body_def Let_def
    by (auto split: option.splits sum.splits prod.splits)
  from max_min_step_None [OF st2] obtain mx mn where
    m: "st2 = st\<lparr>led := False, c_max := Some mx, c_min := Some mn\<rparr>" "mn \<le> a" "a \<le> mx"
    by auto
  have len: "length ms = length roms"
    using external_sensors_Inr [OF ms] by simp
  have avg: "cycle_average roms env = Some a"
    by (simp add: cycle_average_def c ms ob a)
  have "snd (cycle_body roms env st) =
       st\<lparr>c_max := Some mx, c_min := Some mn, led := True,
          console := console st @ [summary_record a (Some mn) (Some mx)],
          sent := sent st @ [batch_layout ms ob (clock env) a mn mx]\<rparr>"
    unfolding cycle_body_def Let_def
    by (simp add: c ms ob a st2 d s m(1) batch_layout_def len py_num_def)
  with ms ob avg m(2,3) d s show ?thesis by blast
qed

lemma cycle_body_failure:
  assumes "fst (cycle_body roms env st) = Some e"
  shows "sent (snd (cycle_body roms env st)) = sent st \<and>
         slept (snd (cycle_body roms env st)) = slept st \<and>
         (console (snd (cycle_body roms env st)) = console st \<or>
          (\<exists>a mn mx. console (snd (cycle_body roms env st)) =
                        console st @ [summary_record a mn mx]))"
  using assms
  unfolding cycle_body_def Let_def
  by (auto split: option.splits sum.splits prod.splits
           dest!: max_min_step_None max_min_step_Some)

lemma cycle_body_bus_failure:
  assumes "convert_temp env \<noteq> None \<or> (\<exists>e. external_sensors roms env = Inl e)"
  shows "\<exists>e. cycle_body roms env st = (Some e, st\<lparr>led := False\<rparr>)"
  using assms
  unfolding cycle_body_def Let_def
  by (auto split: option.splits sum.splits)

lemma cycle_body_encode_or_send_fails:
  assumes "balanced st" and "cycle_average roms env = Some a"
    and "dumps env \<noteq> None \<or> sendto env \<noteq> None"
  shows "fst (cycle_body roms env st) \<noteq> None"
proof -
  from cycle_average_Some [OF assms(2)] obtain ms ob where
    "external_sensors roms env = Inr ms" "get_reading env = Inr ob" by blast
  from cycle_body_average [OF assms(2,1) this] assms(3) show ?thesis
    by (auto simp: Let_def split: option.splits)
qed

lemma max_min_step_slept:
  "max_min_step a (st\<lparr>slept := n\<rparr>) =
     (fst (max_min_step a st), (snd (max_min_step a st))\<lparr>slept := n\<rparr>)"
  by (cases "c_max st"; cases "c_min st") (simp_all add: max_min_step_def Let_def)

lemma cycle_body_led_slept:
  "cycle_body roms env (st\<lparr>led := l, slept := n\<rparr>) =
     (fst (cycle_body roms env st), (snd (cycle_body roms env st))\<lparr>slept := n\<rparr>)"
  unfolding cycle_body_def Let_def
  by (cases "c_max st"; cases "c_min st")
     (simp_all add: max_min_step_def Let_def split: option.splits sum.splits prod.splits)

lemma find_append_none:
  "\<forall>x\<in>set xs. \<not> P x \<Longrightarrow> find P (xs @ ys) = find P ys"
  by (induction xs) auto

lemma reported_batch_layout:
  assumes "\<forall>m\<in>set ms. is_measurement m"
  shows "reported ''avg_temp'' ''value'' (batch_layout ms ob clk a mn mx) = Some a"
    and "reported ''max'' ''value'' (batch_layout ms ob clk a mn mx) = Some mx"
    and "reported ''min'' ''value'' (batch_layout ms ob clk a mn mx) = Some mn"
    and "reported ''summary'' ''avg'' (batch_layout ms ob clk a mn mx) = Some a"
    and "reported ''summary'' ''max'' (batch_layout ms ob clk a mn mx) = Some mx"
    and "reported ''summary'' ''min'' (batch_layout ms ob clk a mn mx) = Some mn"
proof -
  have ty: "\<And>t. t \<noteq> ''Hardware'' \<Longrightarrow> \<forall>m\<in>set ms. \<not> map_of m ''type'' = Some (JStr t)"
    using assms by (auto simp: is_measurement_def TYPE_HARDWARE_def)
  show "reported ''avg_temp'' ''value'' (batch_layout ms ob clk a mn mx) = Some a"
    unfolding reported_def record_of_def batch_layout_def
    by (subst find_append_none [OF ty])
       (simp_all add: onboard_record_def group_record_def summary_record_def TYPE_HARDWARE_def py_num_def)
  show "reported ''max'' ''value'' (batch_layout ms ob clk a mn mx) = Some mx"
    unfolding reported_def record_of_def batch_layout_def
    by (subst find_append_none [OF ty])
       (simp_all add: onboard_record_def group_record_def summary_record_def TYPE_HARDWARE_def py_num_def)
  show "reported ''min'' ''value'' (batch_layout ms ob clk a mn mx) = Some mn"
    unfolding reported_def record_of_def batch_layout_def
    by (subst find_append_none [OF ty])
       (simp_all add: onboard_record_def group_record_def summary_record_def TYPE_HARDWARE_def py_num_def)
  show "reported ''summary'' ''avg'' (batch_layout ms ob clk a mn mx) = Some a"
    unfolding reported_def record_of_def batch_layout_def
    by (subst find_append_none [OF ty])
       (simp_all add: onboard_record_def group_record_def summary_record_def TYPE_HARDWARE_def py_num_def)
  show "reported ''summary'' ''max'' (batch_layout ms ob clk a mn mx) = Some mx"
    unfolding reported_def record_of_def batch_layout_def
    by (subst find_append_none [OF ty])
       (simp_all add: onboard_record_def group_record_def summary_record_def TYPE_HARDWARE_def py_num_def)
  show "reported ''summary'' ''min'' (batch_layout ms ob clk a mn mx) = Some mn"
    unfolding reported_def record_of_def batch_layout_def
    by (subst find_append_none [OF ty])
       (simp_all add: onboard_record_def group_record_def summary_record_def TYPE_HARDWARE_def py_num_def)
qed

lemma reports_batch_layout:
  "\<forall>m\<in>set ms. is_measurement m \<Longrightarrow> reports (batch_layout ms ob clk a mn mx) a mn mx"
  by (simp add: reports_def reported_batch_layout)

lemma reports_unique:
  "reports b a mn mx \<Longrightarrow> reports b a' mn' mx' \<Longrightarrow> a' = a \<and> mn' = mn \<and> mx' = mx"
  by (simp add: reports_def)

lemma cycle_success:
  assumes "balanced st" and "fst (cycle_body roms env st) = None"
  shows "\<exists>a b. cycle_average roms env = Some a \<and>
           reports b a (new_min (c_min st) a) (new_max (c_max st) a) \<and>
           sent (cycle roms env st) = sent st @ [b] \<and>
           c_min (cycle roms env st) = Some (new_min (c_min st) a) \<and>
           c_max (cycle roms env st) = Some (new_max (c_max st) a)"
proof -
  from cycle_body_success [OF assms(2)] obtain ms ob a where
    ms: "external_sensors roms env = Inr ms" and ob: "get_reading env = Inr ob"
    and a: "cycle_average roms env = Some a"
    and d: "dumps env = None" and s: "sendto env = None"
    by blast
  let ?b = "batch_layout ms ob (clock env) a (new_min (c_min st) a) (new_max (c_max st) a)"
  have "reports ?b a (new_min (c_min st) a) (new_max (c_max st) a)"
    using external_sensors_is_measurement [OF ms] by (rule reports_batch_layout)
  moreover have "sent (cycle roms env st) = sent st @ [?b]"
    and "c_min (cycle roms env st) = Some (new_min (c_min st) a)"
    and "c_max (cycle roms env st) = Some (new_max (c_max st) a)"
    by (simp_all add: cycle_def cycle_body_average [OF a assms(1) ms ob] d s Let_def)
  ultimately show ?thesis using a by blast
qed

lemma cycle_failure:
  assumes "fst (cycle_body roms env st) = Some e"
  shows "sent (cycle roms env st) = sent st"
  using cycle_body_failure [OF assms] by (simp add: cycle_def Let_def)

lemma cycle_extrema:
  assumes "balanced st"
  shows "c_max (cycle roms env st) =
           (case cycle_average roms env of
              None \<Rightarrow> c_max st | Some a \<Rightarrow> Some (new_max (c_max st) a))"
    and "c_min (cycle roms env st) =
           (case cycle_average roms env of
              None \<Rightarrow> c_min st | Some a \<Rightarrow> Some (new_min (c_min st) a))"
proof -
  show "c_max (cycle roms env st) =
           (case cycle_average roms env of
              None \<Rightarrow> c_max st | Some a \<Rightarrow> Some (new_max (c_max st) a))"
  proof (cases "cycle_average roms env")
    case None
    from cycle_body_no_average [OF this, of st] show ?thesis
      by (auto simp: cycle_def None)
  next
    case (Some a)
    from cycle_average_Some [OF Some] obtain ms ob where
      "external_sensors roms env = Inr ms" "get_reading env = Inr ob" by blast
    from cycle_body_average [OF Some assms this] show ?thesis
      by (simp add: cycle_def Some Let_def split: option.splits)
  qed
  show "c_min (cycle roms env st) =
           (case cycle_average roms env of
              None \<Rightarrow> c_min st | Some a \<Rightarrow> Some (new_min (c_min st) a))"
  proof (cases "cycle_average roms env")
    case None
    from cycle_body_no_average [OF this, of st] show ?thesis
      by (auto simp: cycle_def None)
  next
    case (Some a)
    from cycle_average_Some [OF Some] obtain ms ob where
      "external_sensors roms env = Inr ms" "get_reading env = Inr ob" by blast
    from cycle_body_average [OF Some assms this] show ?thesis
      by (simp add: cycle_def Some Let_def split: option.splits)
  qed
qed

lemma cycle_balanced:
  assumes "balanced st"
  shows "balanced (cycle roms env st)"
  using cycle_extrema [OF assms, of roms env] assms
  by (auto simp: balanced_def split: option.splits)

lemma cycle_widens:
  assumes "balanced st" and "c_max st = Some cm" and "c_min st = Some cn"
  shows "\<exists>cm' cn'. c_max (cycle roms env st) = Some cm' \<and> c_min (cycle roms env st) = Some cn' \<and>
           cm \<le> cm' \<and> cn' \<le> cn"
  using cycle_extrema [OF assms(1), of roms env] assms(2,3)
  by (auto simp: new_max_def new_min_def split: option.splits)

lemma cycle_body_step_raises:
  assumes "convert_temp env = Some e \<or> external_sensors roms env = Inl e \<or>
     get_reading env = Inl e \<or>
     (\<exists>ms ob. external_sensors roms env = Inr ms \<and> get_reading env = Inr ob \<and>
        avg_from_json (ms @ [onboard_record ob (clock env (length roms))])
          ''value'' ''location'' (JStr ''Pond'') = Inl e) \<or>
     (\<exists>a. cycle_average roms env = Some a \<and>
        fst (max_min_step a (st\<lparr>led := False\<rparr>)) = Some e) \<or>
     dumps env = Some e \<or> sendto env = Some e"
  shows "fst (cycle_body roms env st) \<noteq> None"
  using assms
  unfolding cycle_body_def cycle_average_def Let_def
  by (auto split: option.splits sum.splits prod.splits)

lemma cycle_led:
  "led (cycle roms env st) \<longleftrightarrow>
     (\<exists>a. cycle_average roms env = Some a \<and>
        fst (max_min_step a (st\<lparr>led := False\<rparr>)) = None \<and> dumps env = None)"
proof (cases "cycle_average roms env")
  case None
  from cycle_body_no_average [OF None, of st] show ?thesis
    by (auto simp: cycle_def None)
next
  case (Some a)
  from cycle_average_Some [OF Some] obtain ms ob where
    e: "convert_temp env = None" "external_sensors roms env = Inr ms" "get_reading env = Inr ob"
      "avg_from_json (ms @ [onboard_record ob (clock env (length roms))])
              ''value'' ''location'' (JStr ''Pond'') = Inr a"
    by blast
  show ?thesis
  proof (cases "max_min_step a (st\<lparr>led := False\<rparr>)")
    case (Pair r st2)
    show ?thesis
    proof (cases r)
      case None
      from max_min_step_None [OF Pair [unfolded None]] have "led st2 = False" by auto
      then show ?thesis
        by (auto simp: cycle_def cycle_body_def Let_def e Pair None Some split: option.splits)
    next
      case (Some x)
      from max_min_step_Some [OF Pair [unfolded Some]] have "led st2 = False" by simp
      then show ?thesis
        by (simp add: cycle_def cycle_body_def Let_def e Pair Some \<open>cycle_average roms env = Some a\<close>)
    qed
  qed
qed

lemma cycle_slept: "slept (cycle roms env st) = slept st + LOOP_SLEEP_SECS"
proof (cases "fst (cycle_body roms env st)")
  case None
  from cycle_body_success [OF None] show ?thesis
    by (auto simp: cycle_def)
next
  case (Some e)
  from cycle_body_failure [OF Some] show ?thesis
    by (simp add: cycle_def Let_def)
qed

lemma cycle_transmits:
  assumes "balanced st" and "cycle_average roms env = Some a"
    and "dumps env = None" and "sendto env = None"
  shows "\<exists>b. sent (cycle roms env st) = sent st @ [b]"
proof -
  from cycle_average_Some [OF assms(2)] obtain ms ob where
    "external_sensors roms env = Inr ms" "get_reading env = Inr ob" by blast
  from cycle_body_average [OF assms(2,1) this] show ?thesis
    by (simp add: cycle_def Let_def assms(3,4))
qed

section \<open>Runs of the loop\<close>

lemma main_loop_no_devices: "main_loop [] envs st = st"
  by (cases envs) simp_all

lemma main_loop_snoc:
  "roms \<noteq> [] \<Longrightarrow> main_loop roms (envs @ [env]) st = cycle roms env (main_loop roms envs st)"
  by (induction envs arbitrary: st) simp_all

lemma main_loop_append:
  "main_loop roms (envs @ envs') st = main_loop roms envs' (main_loop roms envs st)"
proof (cases "roms = []")
  case True
  then show ?thesis by (simp add: main_loop_no_devices)
next
  case False
  then show ?thesis by (induction envs arbitrary: st) simp_all
qed

lemma run_inv_init: "run_inv init_state"
  by (simp add: run_inv_def balanced_def init_state_def)

lemma run_inv_cycle:
  assumes "run_inv st"
  shows "run_inv (cycle roms env st)"
proof -
  from assms have bal: "balanced st" and srt: "sorted_wrt widens (sent st)"
    and old: "\<forall>b\<in>set (sent st). \<exists>a mn mx cn cm.
        reports b a mn mx \<and> mn \<le> a \<and> a \<le> mx \<and>
        c_min st = Some cn \<and> c_max st = Some cm \<and> cn \<le> mn \<and> mx \<le> cm"
    by (simp_all add: run_inv_def)
  let ?st = "cycle roms env st"
  have bal': "balanced ?st" using bal by (rule cycle_balanced)
  have old': "\<exists>a mn mx cn cm.
        reports b a mn mx \<and> mn \<le> a \<and> a \<le> mx \<and>
        c_min ?st = Some cn \<and> c_max ?st = Some cm \<and> cn \<le> mn \<and> mx \<le> cm"
    if "b \<in> set (sent st)" for b
  proof -
    from old that obtain a mn mx cn cm where
      b: "reports b a mn mx" "mn \<le> a" "a \<le> mx" "c_min st = Some cn" "c_max st = Some cm"
        "cn \<le> mn" "mx \<le> cm"
      by blast
    from cycle_widens [OF bal b(5,4), of roms env] obtain cm' cn' where
      c': "c_max ?st = Some cm'" "c_min ?st = Some cn'" "cm \<le> cm'" "cn' \<le> cn" by blast
    with b have "cn' \<le> mn" "mx \<le> cm'" by simp_all
    with b(1-3) c'(1,2) show ?thesis by blast
  qed
  show ?thesis
  proof (cases "fst (cycle_body roms env st)")
    case (Some e)
    from cycle_failure [OF Some] have "sent ?st = sent st" .
    with bal' srt old' show ?thesis by (simp add: run_inv_def)
  next
    case None
    from cycle_success [OF bal None] obtain a b where
      a: "cycle_average roms env = Some a"
      and b: "reports b a (new_min (c_min st) a) (new_max (c_max st) a)"
      and s: "sent ?st = sent st @ [b]"
      and mn: "c_min ?st = Some (new_min (c_min st) a)"
      and mx: "c_max ?st = Some (new_max (c_max st) a)"
      by blast
    have encl: "new_min (c_min st) a \<le> a" "a \<le> new_max (c_max st) a"
      by (simp_all add: new_min_def new_max_def split: option.splits)
    have new: "\<exists>a mn mx cn cm.
        reports b a mn mx \<and> mn \<le> a \<and> a \<le> mx \<and>
        c_min ?st = Some cn \<and> c_max ?st = Some cm \<and> cn \<le> mn \<and> mx \<le> cm"
      using b encl mn mx by blast
    have "widens x b" if "x \<in> set (sent st)" for x
    proof -
      from old' [OF that] obtain a1 mn1 mx1 cn cm where
        x: "reports x a1 mn1 mx1" "c_min ?st = Some cn" "c_max ?st = Some cm"
          "cn \<le> mn1" "mx1 \<le> cm"
        by blast
      with mn mx have "new_min (c_min st) a \<le> mn1" "mx1 \<le> new_max (c_max st) a"
        by simp_all
      with x(1) b show ?thesis unfolding widens_def by blast
    qed
    with srt s have "sorted_wrt widens (sent ?st)"
      by (simp add: sorted_wrt_append)
    moreover have "\<forall>b\<in>set (sent ?st). \<exists>a mn mx cn cm.
        reports b a mn mx \<and> mn \<le> a \<and> a \<le> mx \<and>
        c_min ?st = Some cn \<and> c_max ?st = Some cm \<and> cn \<le> mn \<and> mx \<le> cm"
      using old' new s by auto
    ultimately show ?thesis using bal' by (simp add: run_inv_def)
  qed
qed

lemma run_inv_main_loop:
  "run_inv st \<Longrightarrow> run_inv (main_loop roms envs st)"
  by (induction envs arbitrary: st) (simp_all add: run_inv_cycle)

lemma averages_append: "averages roms (xs @ ys) = averages roms xs @ averages roms ys"
  by (induction xs) (simp_all split: option.splits)

lemma run_balanced: "balanced (main_loop roms envs init_state)"
  using run_inv_main_loop [OF run_inv_init] by (simp add: run_inv_def)

lemma run_extrema:
  assumes "roms \<noteq> []"
  shows "c_max (main_loop roms envs init_state) =
           (if averages roms envs = [] then None else Some (Max (set (averages roms envs)))) \<and>
         c_min (main_loop roms envs init_state) =
           (if averages roms envs = [] then None else Some (Min (set (averages roms envs))))"
proof (induction envs rule: rev_induct)
  case Nil
  show ?case by (simp add: init_state_def)
next
  case (snoc env envs)
  let ?st = "main_loop roms envs init_state"
  have bal: "balanced ?st" by (rule run_balanced)
  show ?case
  proof (cases "cycle_average roms env")
    case None
    with snoc cycle_extrema [OF bal, of roms env] show ?thesis
      by (simp add: main_loop_snoc [OF assms] averages_append)
  next
    case (Some a)
    show ?thesis
    proof (cases "averages roms envs = []")
      case True
      with snoc Some cycle_extrema [OF bal, of roms env] show ?thesis
        by (simp add: main_loop_snoc [OF assms] averages_append new_max_def new_min_def)
    next
      case False
      with snoc Some cycle_extrema [OF bal, of roms env] show ?thesis
        by (simp add: main_loop_snoc [OF assms] averages_append new_max_def new_min_def
              max.commute min.commute)
    qed
  qed
qed

lemma run_widens:
  assumes "balanced st" and "c_max st = Some cm" and "c_min st = Some cn"
  shows "\<exists>cm' cn'. c_max (main_loop roms envs st) = Some cm' \<and>
           c_min (main_loop roms envs st) = Some cn' \<and> cm \<le> cm' \<and> cn' \<le> cn"
  using assms
proof (induction envs arbitrary: st cm cn)
  case Nil
  then show ?case by simp
next
  case (Cons env envs)
  show ?case
  proof (cases "roms = []")
    case True
    with Cons.prems show ?thesis by simp
  next
    case False
    from cycle_widens [OF Cons.prems, of roms env] obtain cm1 cn1 where
      c1: "c_max (cycle roms env st) = Some cm1" "c_min (cycle roms env st) = Some cn1"
        "cm \<le> cm1" "cn1 \<le> cn"
      by blast
    from Cons.IH [OF cycle_balanced [OF Cons.prems(1)] c1(1,2)] obtain cm' cn' where
      "c_max (main_loop roms envs (cycle roms env st)) = Some cm'"
      "c_min (main_loop roms envs (cycle roms env st)) = Some cn'" "cm1 \<le> cm'" "cn' \<le> cn1"
      by blast
    with c1 False show ?thesis by auto
  qed
qed

lemma run_reports_extrema:
  assumes "roms \<noteq> []"
    and "fst (cycle_body roms env (main_loop roms envs init_state)) = None"
  shows "\<exists>a. reports (last (sent (main_loop roms (envs @ [env]) init_state))) a
           (Min (set (averages roms (envs @ [env]))))
           (Max (set (averages roms (envs @ [env]))))"
proof -
  let ?st = "main_loop roms envs init_state"
  let ?st' = "main_loop roms (envs @ [env]) init_state"
  have st': "?st' = cycle roms env ?st" by (rule main_loop_snoc [OF assms(1)])
  from cycle_success [OF run_balanced assms(2)] obtain a b where
    a: "cycle_average roms env = Some a"
    and b: "reports b a (new_min (c_min ?st) a) (new_max (c_max ?st) a)"
    and s: "sent (cycle roms env ?st) = sent ?st @ [b]"
    and mn: "c_min (cycle roms env ?st) = Some (new_min (c_min ?st) a)"
    and mx: "c_max (cycle roms env ?st) = Some (new_max (c_max ?st) a)"
    by blast
  have ne: "averages roms (envs @ [env]) \<noteq> []"
    using a by (simp add: averages_append)
  from run_extrema [OF assms(1), of "envs @ [env]"] ne mn mx
  have "new_min (c_min ?st) a = Min (set (averages roms (envs @ [env])))"
    and "new_max (c_max ?st) a = Max (set (averages roms (envs @ [env])))"
    by (simp_all add: st')
  with b have "reports b a (Min (set (averages roms (envs @ [env]))))
                           (Max (set (averages roms (envs @ [env]))))"
    by simp
  moreover have "last (sent ?st') = b" by (simp add: st' s)
  ultimately show ?thesis by blast
qed

section \<open>The connection loop\<close>

lemma connect_requests_flasher: "connect_requests (flasher d t) = 0"
proof (induction d t rule: flasher.induct)
  case (1 d t)
  then show ?case
    by (subst flasher.simps) (simp add: connect_requests_def)
qed

lemma connect_requests_append:
  "connect_requests (xs @ ys) = connect_requests xs + connect_requests ys"
  by (simp add: connect_requests_def)

lemma connect_requests_Nil: "connect_requests [] = 0"
  by (simp add: connect_requests_def)

lemma connect_requests_Cons:
  "connect_requests (e # es) =
     (case e of WlanConnect s p \<Rightarrow> 1 | _ \<Rightarrow> 0) + connect_requests es"
  by (simp add: connect_requests_def split: event.splits)

lemma connect_requests_retry_events: "connect_requests retry_events = 0"
  by (simp add: retry_events_def connect_requests_Cons connect_requests_Nil
        connect_requests_append connect_requests_flasher)

lemma connect_requests_retries: "connect_requests (concat (replicate n retry_events)) = 0"
proof (induction n)
  case 0
  show ?case by (simp add: connect_requests_Nil)
next
  case (Suc n)
  then show ?case by (simp add: connect_requests_append connect_requests_retry_events)
qed

lemma wait_connected_Some:
  assumes "wait_connected isconnected k retry_count tr = Some r"
  shows "\<exists>n. isconnected (k + n) \<and> (\<forall>j<n. \<not> isconnected (k + j)) \<and>
           r = (tr @ concat (replicate n retry_events) @ [IsConnected True],
                retry_count + int n)"
proof (rule wait_connected.raw_induct
    [where P = "\<lambda>f k c tr r. \<exists>n. f (k + n) \<and> (\<forall>j<n. \<not> f (k + j)) \<and>
                   r = (tr @ concat (replicate n retry_events) @ [IsConnected True],
                        c + int n)",
     OF _ assms], goal_cases)
  case (1 wait f k c tr r)
  show ?case
  proof (cases "f k")
    case True
    with 1(2) have "r = (tr @ [IsConnected True], c)" by simp
    with True have "f (k + 0) \<and> (\<forall>j<0. \<not> f (k + j)) \<and>
        r = (tr @ concat (replicate 0 retry_events) @ [IsConnected True], c + int 0)"
      by simp
    then show ?thesis by blast
  next
    case False
    with 1(2) have "wait f (Suc k) (c + 1)
        (tr @ [IsConnected False] @ flasher 20 20 @ [Sleep 5]) = Some r"
      by simp
    from 1(1) [OF this] obtain n where
      n: "f (Suc k + n)" "\<forall>j<n. \<not> f (Suc k + j)"
        "r = ((tr @ [IsConnected False] @ flasher 20 20 @ [Sleep 5]) @
              concat (replicate n retry_events) @ [IsConnected True], c + 1 + int n)"
      by blast
    have "\<forall>j<Suc n. \<not> f (k + j)"
    proof (intro allI impI)
      fix j assume "j < Suc n"
      then show "\<not> f (k + j)"
        using False n(2) by (cases j) auto
    qed
    moreover have "r = (tr @ concat (replicate (Suc n) retry_events) @ [IsConnected True],
                        c + int (Suc n))"
      using n(3) by (simp add: retry_events_def)
    moreover have "f (k + Suc n)" using n(1) by simp
    ultimately show ?thesis by blast
  qed
qed

lemma wait_connected_returns:
  "isconnected (k + n) \<Longrightarrow> \<exists>r. wait_connected isconnected k retry_count tr = Some r"
proof (induction n arbitrary: k retry_count tr)
  case 0
  then show ?case by (subst wait_connected.simps) simp
next
  case (Suc n)
  show ?case
  proof (cases "isconnected k")
    case True
    then show ?thesis by (subst wait_connected.simps) simp
  next
    case False
    from Suc.prems have "isconnected (Suc k + n)" by simp
    from Suc.IH [OF this] False show ?thesis
      by (subst wait_connected.simps) simp
  qed
qed

lemma wait_connected_never:
  assumes "\<forall>n. \<not> isconnected n"
  shows "wait_connected isconnected k retry_count tr = None"
proof (cases "wait_connected isconnected k retry_count tr")
  case None
  then show ?thesis .
next
  case (Some r)
  from wait_connected_Some [OF Some] assms show ?thesis by blast
qed

section \<open>The example inputs evaluated\<close>

lemmas eval_defs =
  cycle_body_def external_sensors_def external_sensors_body_def get_resolution_def
  avg_from_json_def py_div_def max_min_step_def onboard_record_def group_record_def summary_record_def
  py_num_def py_str_def get_value_from_dict_def SENSOR_PLACEMENTS_def rom_to_hex_def
  hexlify_def hex_digit_def TYPE_HARDWARE_def LOW_ALARM_TEMP_def HIGH_ALARM_TEMP_def
  readings_def pond_rom_a_def pond_rom_b_def pump_rom_def scratchpad_def init_state_def
  Let_def

lemma external_sensors_boundary:
  "external_sensors [pond_rom_a, pond_rom_b] (readings 20 25) = Inr boundary_measurements"
  by (simp add: eval_defs boundary_measurements_def)

lemma cycle_scenario1:
  "fst (cycle_body [pond_rom_a, pond_rom_b] (readings 19 26) init_state) = None"
  by (simp add: eval_defs)

lemma external_sensors_scenario1:
  "external_sensors [pond_rom_a, pond_rom_b] (readings 19 26) = Inr scenario1_measurements"
  by (simp add: eval_defs scenario1_measurements_def)

lemma get_reading_readings:
  "get_reading (readings t1 t2) = Inr \<lparr>current_temp = 24, maximum = 24, minimum = 24\<rparr>"
  by (simp add: readings_def)

lemma cycle_pump_only:
  "fst (cycle_body [pump_rom] (readings 19 26) init_state) = None"
  by (simp add: eval_defs)

lemma external_sensors_pump_only:
  "external_sensors [pump_rom] (readings 19 26) = Inr pump_measurements"
  by (simp add: eval_defs pump_measurements_def)

lemma three_cycles_sent:
  "length (sent (main_loop [pond_rom_a, pond_rom_b] three_cycles init_state)) = 3"
  by (simp add: three_cycles_def cycle_def eval_defs)

lemma three_cycles_reports:
  "reports (sent (main_loop [pond_rom_a, pond_rom_b] three_cycles init_state) ! 0) 22 22 22 \<and>
   reports (sent (main_loop [pond_rom_a, pond_rom_b] three_cycles init_state) ! 2) 20 20 22.5"
  by (simp add: three_cycles_def cycle_def eval_defs reports_def reported_def record_of_def)

lemma averages_two_cycles:
  "averages [pond_rom_a, pond_rom_b] [readings 19 26, readings 21 23] = [22.5, 22]"
  by (simp add: cycle_average_def eval_defs)

lemma second_cycle_succeeds:
  "fst (cycle_body [pond_rom_a, pond_rom_b] (readings 21 23)
         (main_loop [pond_rom_a, pond_rom_b] [readings 19 26] init_state)) = None"
  by (simp add: cycle_def eval_defs)

lemma averages_first_cycle: "averages [pond_rom_a, pond_rom_b] [readings 21 23] = [22]"
  by (simp add: cycle_average_def eval_defs)

lemma send_fails_average: "cycle_average [pond_rom_a, pond_rom_b] send_fails = Some 30"
  by (simp add: cycle_average_def send_fails_def eval_defs)

lemma send_fails_raises: "sendto send_fails = Some SendError"
  by (simp add: send_fails_def readings_def)

lemma cycle_after_send_fails:
  "fst (cycle_body [pond_rom_a, pond_rom_b] (readings 21 23)
     (main_loop [pond_rom_a, pond_rom_b] ([readings 21 23] @ send_fails # []) init_state)) = None"
  by (simp add: cycle_def send_fails_def eval_defs)

lemma bus_fails_raises:
  "fst (cycle_body [pond_rom_a, pond_rom_b] bus_fails
     (main_loop [pond_rom_a, pond_rom_b] [readings 21 23] init_state)) = Some ReadTempError"
  by (simp add: cycle_def bus_fails_def eval_defs)

lemma bus_fails_external_sensors:
  "external_sensors [pond_rom_a, pond_rom_b] bus_fails = Inl ReadTempError"
  by (simp add: bus_fails_def eval_defs)

lemma first_cycle_extrema:
  "c_max (main_loop [pond_rom_a, pond_rom_b] [readings 21 23] init_state) = Some 22 \<and>
   c_min (main_loop [pond_rom_a, pond_rom_b] [readings 21 23] init_state) = Some 22 \<and>
   length (sent (main_loop [pond_rom_a, pond_rom_b] [readings 21 23] init_state)) = 1"
  by (simp add: cycle_def eval_defs)

lemma good_cycle_after_first:
  "fst (cycle_body [pond_rom_a, pond_rom_b] (readings 30 30)
     (main_loop [pond_rom_a, pond_rom_b] [readings 21 23] init_state)) = None"
  by (simp add: cycle_def eval_defs)

lemma led_after_cycles:
  "led (main_loop [pond_rom_a, pond_rom_b] [readings 21 23] init_state) = True \<and>
   led (cycle [pond_rom_a, pond_rom_b] bus_fails
     (main_loop [pond_rom_a, pond_rom_b] [readings 21 23] init_state)) = False \<and>
   led (cycle [pond_rom_a, pond_rom_b] (readings 30 30)
     (main_loop [pond_rom_a, pond_rom_b] [readings 21 23] init_state)) = True"
  by (simp add: cycle_def bus_fails_def eval_defs)

lemma scenario1_average: "cycle_average [pond_rom_a, pond_rom_b] (readings 19 26) = Some 22.5"
  by (simp add: cycle_average_def eval_defs)

lemma readings_encode_send: "dumps (readings t1 t2) = None \<and> sendto (readings t1 t2) = None"
  by (simp add: readings_def)

lemma bus_fails_average: "cycle_average [pond_rom_a, pond_rom_b] bus_fails = None"
  by (simp add: cycle_average_def bus_fails_external_sensors split: option.splits)

lemma connect_to_wlan_second_poll:
  "connect_to_wlan s p link_up_on_second_poll =
     Some (flasher 5 10 @ [Sleep 3, WlanActive True, Sleep 2, WlanConnect s p] @
           retry_events @ [IsConnected True], 2)"
  by (simp add: connect_to_wlan_def wait_connected.simps link_up_on_second_poll_def
        retry_events_def)

section \<open>Properties of the firmware\<close>

subsection \<open>Alarm classification\<close>

text \<open>
  Claim C2. Every measurement that \<^verbatim>\<open>external_sensors\<close> builds carries the value read
  from its device, and its alarm field is true exactly when that value is below
  \<open>LOW_ALARM_TEMP\<close> or above \<open>HIGH_ALARM_TEMP\<close>; a value equal to a threshold is not
  alarmed.
\<close>

theorem alarm_iff_outside_thresholds:
  assumes "external_sensors roms env = Inr ms" and "i < length roms"
  shows "\<exists>tempC. read_temp env (roms ! i) = Inr tempC \<and>
           map_of (ms ! i) ''value'' = Some (JNum tempC) \<and>
           map_of (ms ! i) ''alarm'' =
             Some (JBool (tempC < LOW_ALARM_TEMP \<or> tempC > HIGH_ALARM_TEMP)) \<and>
           (tempC = LOW_ALARM_TEMP \<or> tempC = HIGH_ALARM_TEMP \<longrightarrow>
              map_of (ms ! i) ''alarm'' = Some (JBool False))"
proof -
  from external_sensors_Inr [OF assms(1)] assms(2)
  have "external_sensors_body env i (roms ! i) = Inr (ms ! i)" by simp
  from external_sensors_body_Inr [OF this] obtain tempC where
    t: "read_temp env (roms ! i) = Inr tempC"
      "map_of (ms ! i) ''value'' = Some (JNum tempC)"
      "map_of (ms ! i) ''alarm'' = Some (JBool (tempC < LOW_ALARM_TEMP \<or> tempC > HIGH_ALARM_TEMP))"
    by auto
  moreover have "tempC = LOW_ALARM_TEMP \<or> tempC = HIGH_ALARM_TEMP \<Longrightarrow>
      \<not> (tempC < LOW_ALARM_TEMP \<or> tempC > HIGH_ALARM_TEMP)"
    by (auto simp: LOW_ALARM_TEMP_def HIGH_ALARM_TEMP_def)
  ultimately show ?thesis by auto
qed

theorem alarm_iff_outside_thresholds_witness:
  "external_sensors [pond_rom_a, pond_rom_b] (readings 20 25) = Inr boundary_measurements \<and>
   (0::nat) < length [pond_rom_a, pond_rom_b] \<and>
   (1::nat) < length [pond_rom_a, pond_rom_b] \<and>
   read_temp (readings 20 25) ([pond_rom_a, pond_rom_b] ! 0) = Inr LOW_ALARM_TEMP \<and>
   map_of (boundary_measurements ! 0) ''alarm'' = Some (JBool False) \<and>
   read_temp (readings 20 25) ([pond_rom_a, pond_rom_b] ! 1) = Inr HIGH_ALARM_TEMP \<and>
   map_of (boundary_measurements ! 1) ''alarm'' = Some (JBool False) \<and>
   external_sensors [pond_rom_a, pond_rom_b] (readings 19 26) = Inr scenario1_measurements \<and>
   read_temp (readings 19 26) ([pond_rom_a, pond_rom_b] ! 0) = Inr 19 \<and>
   map_of (scenario1_measurements ! 0) ''alarm'' = Some (JBool True) \<and>
   read_temp (readings 19 26) ([pond_rom_a, pond_rom_b] ! 1) = Inr 26 \<and>
   map_of (scenario1_measurements ! 1) ''alarm'' = Some (JBool True)"
proof -
  have i0: "(0::nat) < length [pond_rom_a, pond_rom_b]"
    and i1: "(1::nat) < length [pond_rom_a, pond_rom_b]" by simp_all
  have r0: "read_temp (readings 20 25) ([pond_rom_a, pond_rom_b] ! 0) = Inr LOW_ALARM_TEMP"
    and r1: "read_temp (readings 20 25) ([pond_rom_a, pond_rom_b] ! 1) = Inr HIGH_ALARM_TEMP"
    and s0: "read_temp (readings 19 26) ([pond_rom_a, pond_rom_b] ! 0) = Inr 19"
    and s1: "read_temp (readings 19 26) ([pond_rom_a, pond_rom_b] ! 1) = Inr 26"
    by (simp_all add: readings_def pond_rom_a_def pond_rom_b_def
          LOW_ALARM_TEMP_def HIGH_ALARM_TEMP_def)
  from alarm_iff_outside_thresholds [OF external_sensors_boundary i0] r0
  have a0: "map_of (boundary_measurements ! 0) ''alarm'' = Some (JBool False)" by auto
  from alarm_iff_outside_thresholds [OF external_sensors_boundary i1] r1
  have a1: "map_of (boundary_measurements ! 1) ''alarm'' = Some (JBool False)" by auto
  from alarm_iff_outside_thresholds [OF external_sensors_scenario1 i0] s0
  have b0: "map_of (scenario1_measurements ! 0) ''alarm'' = Some (JBool True)"
    by (auto simp: LOW_ALARM_TEMP_def HIGH_ALARM_TEMP_def)
  from alarm_iff_outside_thresholds [OF external_sensors_scenario1 i1] s1
  have b1: "map_of (scenario1_measurements ! 1) ''alarm'' = Some (JBool True)"
    by (auto simp: LOW_ALARM_TEMP_def HIGH_ALARM_TEMP_def)
  from external_sensors_boundary i0 i1 r0 a0 r1 a1 external_sensors_scenario1 s0 b0 s1 b1
  show ?thesis by blast
qed

subsection \<open>The batch of a cycle\<close>

text \<open>
  Claim C3. The batch a cycle transmits is, in this order: the measurement of every
  device, in the order of \<open>roms\<close> (the order the bus scan returned them); the onboard
  record; the group average record of type \<open>avg_temp\<close>; the group record of type \<open>max\<close>;
  the group record of type \<open>min\<close>; and one record of type \<open>summary\<close> that carries the
  average, the minimum and the maximum together. Nothing else is in it.
\<close>

theorem batch_record_order:
  assumes "external_sensors roms env = Inr ms" and "get_reading env = Inr ob"
    and "fst (cycle_body roms env st) = None"
  shows "length ms = length roms \<and>
    (\<forall>i<length roms. external_sensors_body env i (roms ! i) = Inr (ms ! i)) \<and>
    (\<exists>a mn mx.
       sent (snd (cycle_body roms env st)) =
         sent st @
         [ms @
          [onboard_record ob (clock env (length roms)),
           group_record ''avg_temp'' (JNum a) (clock env (length roms + 1)),
           group_record ''max'' (JNum mx) (clock env (length roms + 2)),
           group_record ''min'' (JNum mn) (clock env (length roms + 3)),
           [(''type'', JStr ''summary''), (''location'', JStr ''Pond''),
            (''avg'', JNum a), (''min'', JNum mn), (''max'', JNum mx)]]])"
proof -
  from cycle_body_success [OF assms(3)] assms(1,2) obtain a mn mx where
    s: "snd (cycle_body roms env st) =
       st\<lparr>c_max := Some mx, c_min := Some mn, led := True,
          console := console st @ [summary_record a (Some mn) (Some mx)],
          sent := sent st @ [batch_layout ms ob (clock env) a mn mx]\<rparr>"
    by auto
  have len: "length ms = length roms"
    and each: "\<forall>i<length roms. external_sensors_body env i (roms ! i) = Inr (ms ! i)"
    using external_sensors_Inr [OF assms(1)] by simp_all
  have "sent (snd (cycle_body roms env st)) =
         sent st @
         [ms @
          [onboard_record ob (clock env (length roms)),
           group_record ''avg_temp'' (JNum a) (clock env (length roms + 1)),
           group_record ''max'' (JNum mx) (clock env (length roms + 2)),
           group_record ''min'' (JNum mn) (clock env (length roms + 3)),
           [(''type'', JStr ''summary''), (''location'', JStr ''Pond''),
            (''avg'', JNum a), (''min'', JNum mn), (''max'', JNum mx)]]]"
    by (simp add: s batch_layout_def len summary_record_def py_num_def)
  with len each show ?thesis by blast
qed

theorem batch_record_order_witness:
  "external_sensors [pond_rom_a, pond_rom_b] (readings 19 26) = Inr scenario1_measurements \<and>
   get_reading (readings 19 26) = Inr \<lparr>current_temp = 24, maximum = 24, minimum = 24\<rparr> \<and>
   fst (cycle_body [pond_rom_a, pond_rom_b] (readings 19 26) init_state) = None \<and>
   length scenario1_measurements = length [pond_rom_a, pond_rom_b] \<and>
   map (\<lambda>r. map_of r ''type'')
     (last (sent (snd (cycle_body [pond_rom_a, pond_rom_b] (readings 19 26) init_state)))) =
     [Some (JStr ''Hardware''), Some (JStr ''Hardware''), Some (JStr ''Hardware''),
      Some (JStr ''avg_temp''), Some (JStr ''max''), Some (JStr ''min''),
      Some (JStr ''summary'')]"
proof -
  from batch_record_order [OF external_sensors_scenario1 get_reading_readings cycle_scenario1]
  have "length scenario1_measurements = length [pond_rom_a, pond_rom_b] \<and>
    map (\<lambda>r. map_of r ''type'')
     (last (sent (snd (cycle_body [pond_rom_a, pond_rom_b] (readings 19 26) init_state)))) =
     [Some (JStr ''Hardware''), Some (JStr ''Hardware''), Some (JStr ''Hardware''),
      Some (JStr ''avg_temp''), Some (JStr ''max''), Some (JStr ''min''),
      Some (JStr ''summary'')]"
    by (auto simp: scenario1_measurements_def onboard_record_def group_record_def
          TYPE_HARDWARE_def)
  with external_sensors_scenario1 get_reading_readings cycle_scenario1
  show ?thesis by blast
qed

subsection \<open>The group average\<close>

text \<open>
  Claim C1. The group average in the \<open>avg_temp\<close> record and in the summary record of a
  cycle is the arithmetic mean of the values of that cycle's measurements whose location
  is "Pond", and it is 0 when no measurement matches: the empty group is a result, not
  a division by zero: whatever its arguments, \<^const>\<open>avg_from_json\<close> does not raise
  \<open>ZeroDivisionError\<close>.
\<close>

theorem group_average_is_mean:
  assumes "external_sensors roms env = Inr ms"
    and "fst (cycle_body roms env st) = None"
  shows "reported ''avg_temp'' ''value'' (last (sent (snd (cycle_body roms env st)))) =
           Some (if group_values ''Pond'' ms = [] then 0
                 else sum_list (group_values ''Pond'' ms) /
                      real (length (group_values ''Pond'' ms))) \<and>
         reported ''summary'' ''avg'' (last (sent (snd (cycle_body roms env st)))) =
           Some (if group_values ''Pond'' ms = [] then 0
                 else sum_list (group_values ''Pond'' ms) /
                      real (length (group_values ''Pond'' ms))) \<and>
         avg_from_json json_array key condition_key condition_val \<noteq> Inl ZeroDivisionError"
proof -
  from cycle_body_success [OF assms(2)] assms(1) obtain ob a mn mx where
    ob: "get_reading env = Inr ob" and a: "cycle_average roms env = Some a"
    and s: "snd (cycle_body roms env st) =
       st\<lparr>c_max := Some mx, c_min := Some mn, led := True,
          console := console st @ [summary_record a (Some mn) (Some mx)],
          sent := sent st @ [batch_layout ms ob (clock env) a mn mx]\<rparr>"
    by auto
  have meas: "\<forall>m\<in>set ms. is_measurement m"
    using assms(1) by (rule external_sensors_is_measurement)
  from cycle_average_Some [OF a] assms(1) ob
  have "avg_from_json (ms @ [onboard_record ob (clock env (length roms))])
          ''value'' ''location'' (JStr ''Pond'') = Inr a"
    by auto
  with avg_from_json_measurements [OF meas]
  have "a = (if group_values ''Pond'' ms = [] then 0
             else sum_list (group_values ''Pond'' ms) /
                  real (length (group_values ''Pond'' ms)))"
    by simp
  moreover have "last (sent (snd (cycle_body roms env st))) =
      batch_layout ms ob (clock env) a mn mx"
    by (simp add: s)
  ultimately show ?thesis
    using reported_batch_layout(1,4) [OF meas] avg_from_json_no_zero_division by simp
qed

theorem group_average_is_mean_witness:
  "(external_sensors [pond_rom_a, pond_rom_b] (readings 19 26) = Inr scenario1_measurements \<and>
    fst (cycle_body [pond_rom_a, pond_rom_b] (readings 19 26) init_state) = None \<and>
    group_values ''Pond'' scenario1_measurements = [19, 26] \<and>
    reported ''avg_temp'' ''value''
      (last (sent (snd (cycle_body [pond_rom_a, pond_rom_b] (readings 19 26) init_state)))) =
      Some 22.5 \<and>
    reported ''summary'' ''avg''
      (last (sent (snd (cycle_body [pond_rom_a, pond_rom_b] (readings 19 26) init_state)))) =
      Some 22.5) \<and>
   (external_sensors [pump_rom] (readings 19 26) = Inr pump_measurements \<and>
    fst (cycle_body [pump_rom] (readings 19 26) init_state) = None \<and>
    group_values ''Pond'' pump_measurements = [] \<and>
    reported ''avg_temp'' ''value''
      (last (sent (snd (cycle_body [pump_rom] (readings 19 26) init_state)))) = Some 0 \<and>
    reported ''summary'' ''avg''
      (last (sent (snd (cycle_body [pump_rom] (readings 19 26) init_state)))) = Some 0)"
proof -
  have g1: "group_values ''Pond'' scenario1_measurements = [19, 26]"
    by (simp add: scenario1_measurements_def)
  have g2: "group_values ''Pond'' pump_measurements = []"
    by (simp add: pump_measurements_def)
  from group_average_is_mean [OF external_sensors_scenario1 cycle_scenario1]
  have c1: "reported ''avg_temp'' ''value''
      (last (sent (snd (cycle_body [pond_rom_a, pond_rom_b] (readings 19 26) init_state)))) =
      Some 22.5 \<and>
    reported ''summary'' ''avg''
      (last (sent (snd (cycle_body [pond_rom_a, pond_rom_b] (readings 19 26) init_state)))) =
      Some 22.5"
    by (simp add: g1)
  from group_average_is_mean [OF external_sensors_pump_only cycle_pump_only]
  have c2: "reported ''avg_temp'' ''value''
      (last (sent (snd (cycle_body [pump_rom] (readings 19 26) init_state)))) = Some 0 \<and>
    reported ''summary'' ''avg''
      (last (sent (snd (cycle_body [pump_rom] (readings 19 26) init_state)))) = Some 0"
    by (simp add: g2)
  from external_sensors_scenario1 cycle_scenario1 g1 c1
    external_sensors_pump_only cycle_pump_only g2 c2
  show ?thesis by blast
qed

subsection \<open>The lifetime extrema\<close>

text \<open>
  Claim C6. In every summary record the loop has sent, the minimum is at most the average
  of that cycle and the average is at most the maximum. It holds of every batch of every
  run from the initial state, so also once a cycle with a non-empty group has run.
\<close>

theorem summary_encloses_average:
  assumes "b \<in> set (sent (main_loop roms envs init_state))"
  shows "\<exists>mn a mx.
           reported ''summary'' ''min'' b = Some mn \<and>
           reported ''summary'' ''avg'' b = Some a \<and>
           reported ''summary'' ''max'' b = Some mx \<and> mn \<le> a \<and> a \<le> mx"
proof -
  have "run_inv (main_loop roms envs init_state)"
    using run_inv_init by (rule run_inv_main_loop)
  with assms obtain a mn mx where "reports b a mn mx" "mn \<le> a" "a \<le> mx"
    unfolding run_inv_def by blast
  then show ?thesis by (auto simp: reports_def)
qed

theorem summary_encloses_average_witness:
  "last (sent (main_loop [pond_rom_a, pond_rom_b] three_cycles init_state))
     \<in> set (sent (main_loop [pond_rom_a, pond_rom_b] three_cycles init_state)) \<and>
   (\<exists>mn a mx.
      reported ''summary'' ''min''
        (last (sent (main_loop [pond_rom_a, pond_rom_b] three_cycles init_state))) = Some mn \<and>
      reported ''summary'' ''avg''
        (last (sent (main_loop [pond_rom_a, pond_rom_b] three_cycles init_state))) = Some a \<and>
      reported ''summary'' ''max''
        (last (sent (main_loop [pond_rom_a, pond_rom_b] three_cycles init_state))) = Some mx \<and>
      mn \<le> a \<and> a \<le> mx)"
proof -
  have "sent (main_loop [pond_rom_a, pond_rom_b] three_cycles init_state) \<noteq> []"
    using three_cycles_sent by auto
  then have h: "last (sent (main_loop [pond_rom_a, pond_rom_b] three_cycles init_state))
     \<in> set (sent (main_loop [pond_rom_a, pond_rom_b] three_cycles init_state))"
    by (rule last_in_set)
  from h summary_encloses_average [OF h] show ?thesis by blast
qed

text \<open>
  Claim C4. Of any two batches of a run, the later one reports a minimum that is no
  higher and a maximum that is no lower, in the \<open>min\<close> and \<open>max\<close> records and in the
  summary alike: the extrema are never reset and never shrink. (The state between the
  cycles behaves the same, whether or not cycles fail: lemma \<open>run_widens\<close>.)
\<close>

theorem lifetime_extrema_monotone:
  assumes "i < j" and "j < length (sent (main_loop roms envs init_state))"
  shows "\<exists>a1 mn1 mx1 a2 mn2 mx2.
           reports (sent (main_loop roms envs init_state) ! i) a1 mn1 mx1 \<and>
           reports (sent (main_loop roms envs init_state) ! j) a2 mn2 mx2 \<and>
           mn2 \<le> mn1 \<and> mx1 \<le> mx2"
proof -
  have "run_inv (main_loop roms envs init_state)"
    using run_inv_init by (rule run_inv_main_loop)
  then have "sorted_wrt widens (sent (main_loop roms envs init_state))"
    by (simp add: run_inv_def)
  with assms have "widens (sent (main_loop roms envs init_state) ! i)
                          (sent (main_loop roms envs init_state) ! j)"
    by (simp add: sorted_wrt_iff_nth_less)
  then show ?thesis by (simp add: widens_def)
qed

theorem lifetime_extrema_monotone_witness:
  "(0::nat) < 2 \<and>
   2 < length (sent (main_loop [pond_rom_a, pond_rom_b] three_cycles init_state)) \<and>
   reports (sent (main_loop [pond_rom_a, pond_rom_b] three_cycles init_state) ! 0) 22 22 22 \<and>
   reports (sent (main_loop [pond_rom_a, pond_rom_b] three_cycles init_state) ! 2) 20 20 22.5 \<and>
   (\<exists>a1 mn1 mx1 a2 mn2 mx2.
      reports (sent (main_loop [pond_rom_a, pond_rom_b] three_cycles init_state) ! 0) a1 mn1 mx1 \<and>
      reports (sent (main_loop [pond_rom_a, pond_rom_b] three_cycles init_state) ! 2) a2 mn2 mx2 \<and>
      mn2 \<le> mn1 \<and> mx1 \<le> mx2)"
proof -
  have i: "(0::nat) < 2" by simp
  have j: "2 < length (sent (main_loop [pond_rom_a, pond_rom_b] three_cycles init_state))"
    by (simp add: three_cycles_sent)
  from lifetime_extrema_monotone [OF i j] i j three_cycles_reports
  show ?thesis by blast
qed

text \<open>
  Claim C5, as stated, fails: the reported extrema are not those of the matching
  measurement values. When the two pond probes read 19.0 and 26.0 in the first cycle, the
  \<open>min\<close> and \<open>max\<close> records and the summary all report 22.5, the average of that cycle,
  and neither 19.0 nor 26.0.
\<close>

theorem extrema_of_measurements_counterexample:
  "external_sensors [pond_rom_a, pond_rom_b] (readings 19 26) = Inr scenario1_measurements \<and>
   group_values ''Pond'' scenario1_measurements = [19, 26] \<and>
   sent (main_loop [pond_rom_a, pond_rom_b] [readings 19 26] init_state) \<noteq> [] \<and>
   reported ''summary'' ''min''
     (last (sent (main_loop [pond_rom_a, pond_rom_b] [readings 19 26] init_state))) = Some 22.5 \<and>
   reported ''min'' ''value''
     (last (sent (main_loop [pond_rom_a, pond_rom_b] [readings 19 26] init_state))) = Some 22.5 \<and>
   Min (set (group_values ''Pond'' scenario1_measurements)) = 19 \<and>
   reported ''summary'' ''max''
     (last (sent (main_loop [pond_rom_a, pond_rom_b] [readings 19 26] init_state))) = Some 22.5 \<and>
   reported ''max'' ''value''
     (last (sent (main_loop [pond_rom_a, pond_rom_b] [readings 19 26] init_state))) = Some 22.5 \<and>
   Max (set (group_values ''Pond'' scenario1_measurements)) = 26"
proof -
  have g: "group_values ''Pond'' scenario1_measurements = [19, 26]"
    by (simp add: scenario1_measurements_def)
  have r: "sent (main_loop [pond_rom_a, pond_rom_b] [readings 19 26] init_state) \<noteq> [] \<and>
    reported ''summary'' ''min''
     (last (sent (main_loop [pond_rom_a, pond_rom_b] [readings 19 26] init_state))) = Some 22.5 \<and>
    reported ''min'' ''value''
     (last (sent (main_loop [pond_rom_a, pond_rom_b] [readings 19 26] init_state))) = Some 22.5 \<and>
    reported ''summary'' ''max''
     (last (sent (main_loop [pond_rom_a, pond_rom_b] [readings 19 26] init_state))) = Some 22.5 \<and>
    reported ''max'' ''value''
     (last (sent (main_loop [pond_rom_a, pond_rom_b] [readings 19 26] init_state))) = Some 22.5"
    by (simp add: cycle_def eval_defs reported_def record_of_def)
  have m: "Min (set [19, 26 :: real]) = 19" "Max (set [19, 26 :: real]) = 26"
    by simp_all
  from external_sensors_scenario1 g r m show ?thesis by simp
qed

text \<open>
  Claim C5, amended. The minimum and the maximum a cycle reports, in the \<open>min\<close> and \<open>max\<close>
  records and in the summary, are the minimum and the maximum over the group averages of
  all cycles so far that reached the update of the extrema (the transmitting cycle
  included), each average being the mean of its cycle's matching measurement values, or 0
  for an empty group.
\<close>

theorem extrema_of_cycle_averages:
  assumes "roms \<noteq> []"
    and "fst (cycle_body roms env (main_loop roms envs init_state)) = None"
  shows "reported ''min'' ''value'' (last (sent (main_loop roms (envs @ [env]) init_state))) =
           Some (Min (set (averages roms (envs @ [env])))) \<and>
         reported ''summary'' ''min'' (last (sent (main_loop roms (envs @ [env]) init_state))) =
           Some (Min (set (averages roms (envs @ [env])))) \<and>
         reported ''max'' ''value'' (last (sent (main_loop roms (envs @ [env]) init_state))) =
           Some (Max (set (averages roms (envs @ [env])))) \<and>
         reported ''summary'' ''max'' (last (sent (main_loop roms (envs @ [env]) init_state))) =
           Some (Max (set (averages roms (envs @ [env]))))"
  using run_reports_extrema [OF assms] by (auto simp: reports_def)

theorem extrema_of_cycle_averages_witness:
  "[pond_rom_a, pond_rom_b] \<noteq> [] \<and>
   fst (cycle_body [pond_rom_a, pond_rom_b] (readings 21 23)
         (main_loop [pond_rom_a, pond_rom_b] [readings 19 26] init_state)) = None \<and>
   averages [pond_rom_a, pond_rom_b] [readings 19 26, readings 21 23] = [22.5, 22] \<and>
   reported ''summary'' ''min''
     (last (sent (main_loop [pond_rom_a, pond_rom_b] ([readings 19 26] @ [readings 21 23])
        init_state))) = Some 22 \<and>
   reported ''summary'' ''max''
     (last (sent (main_loop [pond_rom_a, pond_rom_b] ([readings 19 26] @ [readings 21 23])
        init_state))) = Some 22.5"
proof -
  have r: "[pond_rom_a, pond_rom_b] \<noteq> []" by simp
  from extrema_of_cycle_averages [OF r second_cycle_succeeds]
  have "reported ''summary'' ''min''
     (last (sent (main_loop [pond_rom_a, pond_rom_b] ([readings 19 26] @ [readings 21 23])
        init_state))) = Some 22 \<and>
   reported ''summary'' ''max''
     (last (sent (main_loop [pond_rom_a, pond_rom_b] ([readings 19 26] @ [readings 21 23])
        init_state))) = Some 22.5"
    unfolding append.simps averages_two_cycles by simp
  with r second_cycle_succeeds averages_two_cycles show ?thesis by blast
qed

subsection \<open>Failing cycles\<close>

text \<open>
  Claim C7, as stated, fails in one point: a failed cycle is not hidden from every
  observer. The LED is switched off when the body starts and on again only on line 213,
  after the encoding. From the same state, a cycle in which a bus read raises leaves the
  LED off through the sleep, and a cycle without a fault leaves it on.
\<close>

theorem failure_shows_on_led_counterexample:
  "fst (cycle_body [pond_rom_a, pond_rom_b] bus_fails
     (main_loop [pond_rom_a, pond_rom_b] [readings 21 23] init_state)) = Some ReadTempError \<and>
   led (cycle [pond_rom_a, pond_rom_b] bus_fails
     (main_loop [pond_rom_a, pond_rom_b] [readings 21 23] init_state)) = False \<and>
   fst (cycle_body [pond_rom_a, pond_rom_b] (readings 30 30)
     (main_loop [pond_rom_a, pond_rom_b] [readings 21 23] init_state)) = None \<and>
   led (cycle [pond_rom_a, pond_rom_b] (readings 30 30)
     (main_loop [pond_rom_a, pond_rom_b] [readings 21 23] init_state)) = True"
  using bus_fails_raises good_cycle_after_first led_after_cycles by simp

text \<open>
  Claim C7, amended. When a step of the body raises (the conversion, a sensor read, the
  onboard reading, the aggregation, the encoding or the send), the body fails: no
  datagram is sent in that cycle (so no part of a batch either), the loop sleeps
  \<open>LOOP_SLEEP_SECS\<close>, and the console shows at most the summary of the cycle, never the
  exception. The LED does show the failure: after the cycle it is on exactly when the
  statements up to the encoding succeeded, that is, when only the send raised, and off
  otherwise. The loop goes on: the next cycle, started from extrema that are set
  together, transmits its datagram when none of its own steps raises. When the conversion
  or a bus read raises, the lifetime extrema are left as they were, and the next cycle
  does what it would have done without the failed one, the time slept apart.
\<close>

theorem failed_cycle_sends_nothing:
  assumes "convert_temp env = Some e \<or> external_sensors roms env = Inl e \<or>
     get_reading env = Inl e \<or>
     (\<exists>ms ob. external_sensors roms env = Inr ms \<and> get_reading env = Inr ob \<and>
        avg_from_json (ms @ [onboard_record ob (clock env (length roms))])
          ''value'' ''location'' (JStr ''Pond'') = Inl e) \<or>
     (\<exists>a. cycle_average roms env = Some a \<and>
        fst (max_min_step a (st\<lparr>led := False\<rparr>)) = Some e) \<or>
     dumps env = Some e \<or> sendto env = Some e"
  shows "fst (cycle_body roms env st) \<noteq> None \<and>
    sent (cycle roms env st) = sent st \<and>
    slept (cycle roms env st) = slept st + LOOP_SLEEP_SECS \<and>
    (console (cycle roms env st) = console st \<or>
     (\<exists>a mn mx. console (cycle roms env st) = console st @ [summary_record a mn mx])) \<and>
    (led (cycle roms env st) \<longleftrightarrow>
       (\<exists>a. cycle_average roms env = Some a \<and>
          fst (max_min_step a (st\<lparr>led := False\<rparr>)) = None \<and> dumps env = None)) \<and>
    (balanced st \<and> roms \<noteq> [] \<and> cycle_average roms env2 \<noteq> None \<and>
     dumps env2 = None \<and> sendto env2 = None \<longrightarrow>
       (\<exists>b. sent (main_loop roms [env, env2] st) = sent st @ [b]) \<and>
       slept (main_loop roms [env, env2] st) = slept st + 2 * LOOP_SLEEP_SECS) \<and>
    (convert_temp env \<noteq> None \<or> (\<exists>e'. external_sensors roms env = Inl e') \<longrightarrow>
       c_max (cycle roms env st) = c_max st \<and> c_min (cycle roms env st) = c_min st \<and>
       cycle roms env2 (cycle roms env st) =
         (cycle roms env2 st)\<lparr>slept := slept st + 2 * LOOP_SLEEP_SECS\<rparr>)"
proof -
  from assms have raised: "fst (cycle_body roms env st) \<noteq> None"
    by (rule cycle_body_step_raises)
  then obtain e0 where e0: "fst (cycle_body roms env st) = Some e0" by auto
  from cycle_body_failure [OF e0]
  have a: "sent (cycle roms env st) = sent st"
    and b: "slept (cycle roms env st) = slept st + LOOP_SLEEP_SECS"
    and c: "console (cycle roms env st) = console st \<or>
     (\<exists>a mn mx. console (cycle roms env st) = console st @ [summary_record a mn mx])"
    by (simp_all add: cycle_def Let_def)
  note l = cycle_led [of roms env st]
  have d: "(\<exists>b. sent (main_loop roms [env, env2] st) = sent st @ [b]) \<and>
       slept (main_loop roms [env, env2] st) = slept st + 2 * LOOP_SLEEP_SECS"
    if "balanced st \<and> roms \<noteq> [] \<and> cycle_average roms env2 \<noteq> None \<and>
        dumps env2 = None \<and> sendto env2 = None"
  proof -
    from that obtain a2 where a2: "cycle_average roms env2 = Some a2" by auto
    have bal: "balanced (cycle roms env st)" using that by (simp add: cycle_balanced)
    from that have dn: "dumps env2 = None" "sendto env2 = None" by simp_all
    from cycle_transmits [OF bal a2 dn] obtain b2 where
      "sent (cycle roms env2 (cycle roms env st)) = sent (cycle roms env st) @ [b2]"
      by blast
    with a that show ?thesis
      by (simp add: cycle_slept)
  qed
  have e: "c_max (cycle roms env st) = c_max st \<and> c_min (cycle roms env st) = c_min st \<and>
       cycle roms env2 (cycle roms env st) =
         (cycle roms env2 st)\<lparr>slept := slept st + 2 * LOOP_SLEEP_SECS\<rparr>"
    if "convert_temp env \<noteq> None \<or> (\<exists>e'. external_sensors roms env = Inl e')"
  proof -
    from cycle_body_bus_failure [OF that, of st] obtain e' where
      "cycle_body roms env st = (Some e', st\<lparr>led := False\<rparr>)" by blast
    then have st': "cycle roms env st = st\<lparr>led := False, slept := slept st + LOOP_SLEEP_SECS\<rparr>"
      by (simp add: cycle_def)
    show ?thesis
      by (simp add: st' cycle_def [of roms env2] cycle_body_led_slept Let_def)
  qed
  from raised a b c l d e show ?thesis by blast
qed

theorem failed_cycle_sends_nothing_witness:
  "external_sensors [pond_rom_a, pond_rom_b] bus_fails = Inl ReadTempError \<and>
   fst (cycle_body [pond_rom_a, pond_rom_b] bus_fails
     (main_loop [pond_rom_a, pond_rom_b] [readings 21 23] init_state)) = Some ReadTempError \<and>
   length (sent (cycle [pond_rom_a, pond_rom_b] bus_fails
     (main_loop [pond_rom_a, pond_rom_b] [readings 21 23] init_state))) = 1 \<and>
   c_max (cycle [pond_rom_a, pond_rom_b] bus_fails
     (main_loop [pond_rom_a, pond_rom_b] [readings 21 23] init_state)) = Some 22 \<and>
   c_min (cycle [pond_rom_a, pond_rom_b] bus_fails
     (main_loop [pond_rom_a, pond_rom_b] [readings 21 23] init_state)) = Some 22 \<and>
   led (cycle [pond_rom_a, pond_rom_b] bus_fails
     (main_loop [pond_rom_a, pond_rom_b] [readings 21 23] init_state)) = False \<and>
   length (sent (main_loop [pond_rom_a, pond_rom_b] [bus_fails, readings 19 26]
     (main_loop [pond_rom_a, pond_rom_b] [readings 21 23] init_state))) = 2 \<and>
   sendto send_fails = Some SendError \<and>
   length (sent (cycle [pond_rom_a, pond_rom_b] send_fails
     (main_loop [pond_rom_a, pond_rom_b] [readings 21 23] init_state))) = 1"
proof -
  let ?R = "[pond_rom_a, pond_rom_b]"
  let ?st = "main_loop ?R [readings 21 23] init_state"
  have h1: "convert_temp bus_fails = Some ReadTempError \<or>
     external_sensors ?R bus_fails = Inl ReadTempError \<or>
     get_reading bus_fails = Inl ReadTempError \<or>
     (\<exists>ms ob. external_sensors ?R bus_fails = Inr ms \<and> get_reading bus_fails = Inr ob \<and>
        avg_from_json (ms @ [onboard_record ob (clock bus_fails (length ?R))])
          ''value'' ''location'' (JStr ''Pond'') = Inl ReadTempError) \<or>
     (\<exists>a. cycle_average ?R bus_fails = Some a \<and>
        fst (max_min_step a (?st\<lparr>led := False\<rparr>)) = Some ReadTempError) \<or>
     dumps bus_fails = Some ReadTempError \<or> sendto bus_fails = Some ReadTempError"
    using bus_fails_external_sensors by blast
  have h2: "convert_temp send_fails = Some SendError \<or>
     external_sensors ?R send_fails = Inl SendError \<or>
     get_reading send_fails = Inl SendError \<or>
     (\<exists>ms ob. external_sensors ?R send_fails = Inr ms \<and> get_reading send_fails = Inr ob \<and>
        avg_from_json (ms @ [onboard_record ob (clock send_fails (length ?R))])
          ''value'' ''location'' (JStr ''Pond'') = Inl SendError) \<or>
     (\<exists>a. cycle_average ?R send_fails = Some a \<and>
        fst (max_min_step a (?st\<lparr>led := False\<rparr>)) = Some SendError) \<or>
     dumps send_fails = Some SendError \<or> sendto send_fails = Some SendError"
    using send_fails_raises by blast
  note t1 = failed_cycle_sends_nothing [OF h1, where ?env2.0 = "readings 19 26"]
  note t2 = failed_cycle_sends_nothing [OF h2, where ?env2.0 = "readings 19 26"]
  have bal: "balanced ?st" by (rule run_balanced)
  have nx: "balanced ?st \<and> ?R \<noteq> [] \<and> cycle_average ?R (readings 19 26) \<noteq> None \<and>
     dumps (readings 19 26) = None \<and> sendto (readings 19 26) = None"
    using bal scenario1_average readings_encode_send by simp
  from t1 have s1: "sent (cycle ?R bus_fails ?st) = sent ?st" by blast
  from t1 bus_fails_external_sensors
  have x1: "c_max (cycle ?R bus_fails ?st) = c_max ?st \<and> c_min (cycle ?R bus_fails ?st) = c_min ?st"
    by blast
  from t1 nx obtain b where n1: "sent (main_loop ?R [bus_fails, readings 19 26] ?st) = sent ?st @ [b]"
    by blast
  from t1 have "led (cycle ?R bus_fails ?st) \<longleftrightarrow>
       (\<exists>a. cycle_average ?R bus_fails = Some a \<and>
          fst (max_min_step a (?st\<lparr>led := False\<rparr>)) = None \<and> dumps bus_fails = None)"
    by blast
  moreover note bus_fails_average
  ultimately have l1: "led (cycle ?R bus_fails ?st) = False" by simp
  from t2 have s2: "sent (cycle ?R send_fails ?st) = sent ?st" by blast
  from s1 x1 n1 l1 s2 first_cycle_extrema bus_fails_external_sensors bus_fails_raises
    send_fails_raises
  show ?thesis by simp
qed

text \<open>
  Claim C10. The failure boundary of a cycle does not cover the lifetime extrema. When a
  cycle has computed its group average \<open>a\<close> and then the encoding or the send raises, the
  cycle is discarded and nothing is sent, but \<open>c_max\<close> and \<open>c_min\<close> keep the update with
  \<open>a\<close>; every later batch reports extrema that range over \<open>a\<close> as well as over the
  averages of the other cycles, so the retained values are what the later \<open>max\<close>, \<open>min\<close>
  and summary records show until a later average lies outside them.
\<close>

theorem discarded_cycle_extrema_retained:
  assumes "roms \<noteq> []"
    and "cycle_average roms env = Some a"
    and "dumps env \<noteq> None \<or> sendto env \<noteq> None"
    and "fst (cycle_body roms env2 (main_loop roms (envs @ env # envs2) init_state)) = None"
  shows "fst (cycle_body roms env (main_loop roms envs init_state)) \<noteq> None \<and>
    sent (main_loop roms (envs @ [env]) init_state) = sent (main_loop roms envs init_state) \<and>
    c_max (main_loop roms (envs @ [env]) init_state) =
      Some (Max (insert a (set (averages roms envs)))) \<and>
    c_min (main_loop roms (envs @ [env]) init_state) =
      Some (Min (insert a (set (averages roms envs)))) \<and>
    (\<exists>a2. reports (last (sent (main_loop roms (envs @ env # envs2 @ [env2]) init_state))) a2
       (Min (insert a (set (averages roms envs) \<union> set (averages roms (envs2 @ [env2])))))
       (Max (insert a (set (averages roms envs) \<union> set (averages roms (envs2 @ [env2]))))))"
proof -
  let ?st = "main_loop roms envs init_state"
  have raised: "fst (cycle_body roms env ?st) \<noteq> None"
    using run_balanced assms(2,3) by (rule cycle_body_encode_or_send_fails)
  then obtain e where "fst (cycle_body roms env ?st) = Some e" by auto
  from cycle_failure [OF this]
  have nosend: "sent (main_loop roms (envs @ [env]) init_state) = sent ?st"
    by (simp add: main_loop_snoc [OF assms(1)])
  have av: "averages roms (envs @ [env]) = averages roms envs @ [a]"
    by (simp add: averages_append assms(2))
  from run_extrema [OF assms(1), of "envs @ [env]"]
  have kept: "c_max (main_loop roms (envs @ [env]) init_state) =
      Some (Max (insert a (set (averages roms envs))))"
    "c_min (main_loop roms (envs @ [env]) init_state) =
      Some (Min (insert a (set (averages roms envs))))"
    by (simp_all add: av)
  have split: "envs @ env # envs2 @ [env2] = (envs @ env # envs2) @ [env2]" by simp
  have "set (averages roms ((envs @ env # envs2) @ [env2])) =
          insert a (set (averages roms envs) \<union> set (averages roms (envs2 @ [env2])))"
    by (simp add: averages_append assms(2))
  with run_reports_extrema [OF assms(1,4)]
  have "\<exists>a2. reports (last (sent (main_loop roms (envs @ env # envs2 @ [env2]) init_state))) a2
       (Min (insert a (set (averages roms envs) \<union> set (averages roms (envs2 @ [env2])))))
       (Max (insert a (set (averages roms envs) \<union> set (averages roms (envs2 @ [env2])))))"
    unfolding split by simp
  with raised nosend kept show ?thesis by blast
qed

theorem discarded_cycle_extrema_retained_witness:
  "[pond_rom_a, pond_rom_b] \<noteq> [] \<and>
   cycle_average [pond_rom_a, pond_rom_b] send_fails = Some 30 \<and>
   sendto send_fails = Some SendError \<and>
   fst (cycle_body [pond_rom_a, pond_rom_b] (readings 21 23)
     (main_loop [pond_rom_a, pond_rom_b] ([readings 21 23] @ send_fails # []) init_state)) = None \<and>
   averages [pond_rom_a, pond_rom_b] [readings 21 23] = [22] \<and>
   sent (main_loop [pond_rom_a, pond_rom_b] ([readings 21 23] @ [send_fails]) init_state) =
     sent (main_loop [pond_rom_a, pond_rom_b] [readings 21 23] init_state) \<and>
   c_max (main_loop [pond_rom_a, pond_rom_b] ([readings 21 23] @ [send_fails]) init_state) =
     Some 30 \<and>
   reported ''summary'' ''max''
     (last (sent (main_loop [pond_rom_a, pond_rom_b]
        ([readings 21 23] @ send_fails # [] @ [readings 21 23]) init_state))) = Some 30 \<and>
   reported ''max'' ''value''
     (last (sent (main_loop [pond_rom_a, pond_rom_b]
        ([readings 21 23] @ send_fails # [] @ [readings 21 23]) init_state))) = Some 30 \<and>
   reported ''summary'' ''avg''
     (last (sent (main_loop [pond_rom_a, pond_rom_b]
        ([readings 21 23] @ send_fails # [] @ [readings 21 23]) init_state))) = Some 22"
proof -
  have r: "[pond_rom_a, pond_rom_b] \<noteq> []" by simp
  have f: "dumps send_fails \<noteq> None \<or> sendto send_fails \<noteq> None"
    by (simp add: send_fails_raises)
  note t = discarded_cycle_extrema_retained [OF r send_fails_average f cycle_after_send_fails]
  have m: "Max (insert 30 (set [22 :: real] \<union> set [22])) = 30" by simp
  have a2: "averages [pond_rom_a, pond_rom_b] ([] @ [readings 21 23]) = [22]"
    using averages_first_cycle by simp
  from t have s: "sent (main_loop [pond_rom_a, pond_rom_b] ([readings 21 23] @ [send_fails]) init_state) =
     sent (main_loop [pond_rom_a, pond_rom_b] [readings 21 23] init_state)"
    by blast
  from t have c: "c_max (main_loop [pond_rom_a, pond_rom_b] ([readings 21 23] @ [send_fails]) init_state) =
     Some 30"
    unfolding averages_first_cycle by simp
  from t obtain x where x: "reports (last (sent (main_loop [pond_rom_a, pond_rom_b]
        ([readings 21 23] @ send_fails # [] @ [readings 21 23]) init_state))) x
       (Min (insert 30 (set [22 :: real] \<union> set [22])))
       (Max (insert 30 (set [22 :: real] \<union> set [22])))"
    unfolding averages_first_cycle a2 by blast
  have avg: "reported ''summary'' ''avg''
     (last (sent (main_loop [pond_rom_a, pond_rom_b]
        ([readings 21 23] @ send_fails # [] @ [readings 21 23]) init_state))) = Some 22"
    by (simp add: cycle_def send_fails_def eval_defs reported_def record_of_def)
  from x have mx: "reported ''summary'' ''max''
     (last (sent (main_loop [pond_rom_a, pond_rom_b]
        ([readings 21 23] @ send_fails # [] @ [readings 21 23]) init_state))) = Some 30"
    "reported ''max'' ''value''
     (last (sent (main_loop [pond_rom_a, pond_rom_b]
        ([readings 21 23] @ send_fails # [] @ [readings 21 23]) init_state))) = Some 30"
    unfolding reports_def m by blast+
  from r send_fails_average send_fails_raises cycle_after_send_fails averages_first_cycle
    s c mx avg
  show ?thesis by blast
qed

subsection \<open>The resolution of a device\<close>

text \<open>
  Claim C9. \<^verbatim>\<open>get_resolution\<close> does not extract the resolution code. Its expression
  \<^verbatim>\<open>buf[4] & 0x60 >> 5\<close> is \<^verbatim>\<open>buf[4] & 3\<close>, the two lowest bits of the configuration
  byte. For a probe set to 9 bits (configuration byte \<open>0x1f\<close>, resolution code 0) it returns
  3, and the measurement carries \<open>resolution_bits = 3 * 9 + 9 = 36\<close>, which is no
  resolution between 9 and 12 bits.
\<close>

theorem get_resolution_masks_low_bits:
  "read_scratch nine_bit_probe pond_rom_a = Inr (scratchpad 0x1f) \<and>
   scratchpad 0x1f ! 4 = 0x1f \<and>
   resolution_code 0x1f = 0 \<and>
   get_resolution nine_bit_probe pond_rom_a = Inr 3 \<and>
   external_sensors [pond_rom_a] nine_bit_probe = Inr [nine_bit_measurement] \<and>
   map_of nine_bit_measurement ''resolution_raw'' = Some (JInt 3) \<and>
   map_of nine_bit_measurement ''resolution_bits'' = Some (JInt 36)"
  by (simp add: nine_bit_probe_def nine_bit_measurement_def resolution_code_def eval_defs)

subsection \<open>Connecting to the WLAN\<close>

text \<open>
  Claim C8, as stated, fails: the loop of \<^verbatim>\<open>connect_to_wlan\<close> never calls
  \<^verbatim>\<open>wlan.connect\<close> again. When the first poll finds the interface not connected and the
  second finds it connected, the trace holds one connect request, issued before the first
  poll, and none between the two polls.
\<close>

theorem reissues_connect_counterexample:
  "map_option reissues_on_timeout
     (map_option fst (connect_to_wlan ''net'' ''key'' link_up_on_second_poll)) = Some False \<and>
   map_option connect_requests
     (map_option fst (connect_to_wlan ''net'' ''key'' link_up_on_second_poll)) = Some 1"
  by (simp add: connect_to_wlan_second_poll retry_events_def flasher.simps connect_requests_def)

text \<open>
  Claim C8, amended. \<^verbatim>\<open>connect_to_wlan\<close> has no failure result: when it returns, the last
  thing it did was a poll that found the interface connected, at the first poll that
  does; it returns whenever some poll finds the interface connected, and never returns
  when none does. The connect request is issued exactly once, before the first poll;
  after each poll that finds no connection the function flashes the LED 20 times,
  increments its retry counter, sleeps 5 seconds and polls again, without issuing the
  connect request again: the counter, which starts at 1, ends at 1 plus the number of
  polls that found no connection.
\<close>

theorem connect_to_wlan_polls_until_connected:
  "(connect_to_wlan ssid password isconnected = Some (tr, retries) \<longrightarrow>
      (\<exists>n. isconnected n \<and> (\<forall>j<n. \<not> isconnected j) \<and>
         tr = flasher 5 10 @ [Sleep 3, WlanActive True, Sleep 2, WlanConnect ssid password] @
              concat (replicate n ([IsConnected False] @ flasher 20 20 @ [Sleep 5])) @
              [IsConnected True] \<and>
         retries = 1 + int n) \<and>
      connect_requests tr = 1 \<and> last tr = IsConnected True) \<and>
   (isconnected m \<longrightarrow> connect_to_wlan ssid password isconnected \<noteq> None) \<and>
   ((\<forall>n. \<not> isconnected n) \<longrightarrow> connect_to_wlan ssid password isconnected = None)"
proof (intro conjI impI)
  assume r: "connect_to_wlan ssid password isconnected = Some (tr, retries)"
  from wait_connected_Some [OF r [unfolded connect_to_wlan_def]] obtain n where
    n: "isconnected n" "\<forall>j<n. \<not> isconnected j"
      "tr = (flasher 5 10 @ [Sleep 3, WlanActive True, Sleep 2, WlanConnect ssid password]) @
            concat (replicate n retry_events) @ [IsConnected True]"
      "retries = 1 + int n"
    by auto
  then show "\<exists>n. isconnected n \<and> (\<forall>j<n. \<not> isconnected j) \<and>
         tr = flasher 5 10 @ [Sleep 3, WlanActive True, Sleep 2, WlanConnect ssid password] @
              concat (replicate n ([IsConnected False] @ flasher 20 20 @ [Sleep 5])) @
              [IsConnected True] \<and>
         retries = 1 + int n"
    unfolding retry_events_def by auto
  show "connect_requests tr = 1"
    by (simp add: n(3) connect_requests_append connect_requests_flasher
          connect_requests_retries connect_requests_Cons connect_requests_Nil)
  show "last tr = IsConnected True"
    by (simp add: n(3))
next
  assume "isconnected m"
  then have "isconnected (0 + m)" by simp
  from wait_connected_returns [where isconnected = isconnected and k = 0 and n = m, OF this]
  show "connect_to_wlan ssid password isconnected \<noteq> None"
    unfolding connect_to_wlan_def by (metis option.distinct(1))
next
  assume "\<forall>n. \<not> isconnected n"
  then show "connect_to_wlan ssid password isconnected = None"
    unfolding connect_to_wlan_def by (rule wait_connected_never)
qed

theorem connect_to_wlan_polls_until_connected_witness:
  "link_up_on_second_poll 1 \<and>
   connect_to_wlan ''net'' ''key'' link_up_on_second_poll \<noteq> None \<and>
   map_option connect_requests
     (map_option fst (connect_to_wlan ''net'' ''key'' link_up_on_second_poll)) = Some 1 \<and>
   map_option last
     (map_option fst (connect_to_wlan ''net'' ''key'' link_up_on_second_poll)) =
     Some (IsConnected True) \<and>
   map_option snd (connect_to_wlan ''net'' ''key'' link_up_on_second_poll) = Some 2"
proof -
  have up: "link_up_on_second_poll 1" by (simp add: link_up_on_second_poll_def)
  from connect_to_wlan_polls_until_connected
    [of "''net''" "''key''" link_up_on_second_poll _ _ 1] up
  have ret: "connect_to_wlan ''net'' ''key'' link_up_on_second_poll \<noteq> None" by blast
  then obtain tr retries where
    tr: "connect_to_wlan ''net'' ''key'' link_up_on_second_poll = Some (tr, retries)"
    by auto
  from connect_to_wlan_polls_until_connected
    [of "''net''" "''key''" link_up_on_second_poll tr retries 1] tr
  obtain n where n: "link_up_on_second_poll n" "\<forall>j<n. \<not> link_up_on_second_poll j"
    "retries = 1 + int n" "connect_requests tr = 1" "last tr = IsConnected True"
    by blast
  have "n = 1"
  proof -
    from n(1) have "1 \<le> n" by (simp add: link_up_on_second_poll_def)
    moreover have "\<not> 1 < n" using n(2) up by blast
    ultimately show ?thesis by simp
  qed
  with n(3) have "retries = 2" by simp
  with up ret tr n(4,5) show ?thesis by simp
qed

end
